theory Spec2Isabelle
  imports Complex_Main "HOL-Library.Sublist"
begin

section \<open>Registration profiles (util\_fireants.py, lines 37--71)\<close>

text \<open>
  Python strings are modelled as HOL strings. The only string operation the profile table
  uses is \<^verbatim>\<open>str.lower\<close>, a builtin of the interpreter whose Unicode case table is no
  part of the repository: the table is a parameter \<open>lower\<close> of the model, and every
  theorem below holds for each choice of it. \<open>ascii_lower\<close> is the instance that agrees
  with \<^verbatim>\<open>str.lower\<close> on ASCII strings; concrete runs are evaluated with it.

  The two learning rates are the float literals \<^verbatim>\<open>3e-3\<close> and \<^verbatim>\<open>0.5\<close>. The code only
  passes them on, it never computes with them, so they are modelled by the decimal values
  the literals denote.
\<close>

definition ascii_lower_char :: "char \<Rightarrow> char" where
  "ascii_lower_char c =
     (let n = (of_char c :: nat) in
      if 65 \<le> n \<and> n \<le> 90 then char_of (n + 32) else c)"

definition ascii_lower :: "string \<Rightarrow> string" where
  "ascii_lower s = map ascii_lower_char s"

text \<open>The returned tuple \<^verbatim>\<open>(scales, iterations, affine_lr, deform_lr)\<close>.\<close>

type_synonym profile_params = "int list \<times> int list \<times> real \<times> real"

definition get_profile_params :: "(string \<Rightarrow> string) \<Rightarrow> string \<Rightarrow> profile_params" where
  "get_profile_params lower profile0 =
     (let profile = lower profile0 in
      if profile = ''test'' then ([4, 2, 1], [8, 2, 0], 3 / 1000, 1 / 2)
      else if profile = ''quick'' then ([4, 2, 1], [100, 50, 0], 3 / 1000, 1 / 2)
      else if profile = ''balanced'' then ([4, 2, 1], [50, 50, 25], 3 / 1000, 1 / 2)
      else ([4, 2, 1], [200, 100, 50], 3 / 1000, 1 / 2))"

definition scales_of :: "profile_params \<Rightarrow> int list" where
  "scales_of p = (case p of (scales, iterations, affine_lr, deform_lr) \<Rightarrow> scales)"

definition iterations_of :: "profile_params \<Rightarrow> int list" where
  "iterations_of p = (case p of (scales, iterations, affine_lr, deform_lr) \<Rightarrow> iterations)"

definition affine_lr_of :: "profile_params \<Rightarrow> real" where
  "affine_lr_of p = (case p of (scales, iterations, affine_lr, deform_lr) \<Rightarrow> affine_lr)"

definition deform_lr_of :: "profile_params \<Rightarrow> real" where
  "deform_lr_of p = (case p of (scales, iterations, affine_lr, deform_lr) \<Rightarrow> deform_lr)"

text \<open>
  Lines 163--165: the deformable stage's budgets are a copy of the profile's, with the last
  entry overwritten by 25 when the list has at least three entries and the last one exceeds
  25. \<^verbatim>\<open>deform_iterations[-1]\<close> is only read behind the length test, so it never raises.
\<close>

definition deform_iterations_of :: "int list \<Rightarrow> int list" where
  "deform_iterations_of iterations =
     (let deform_iterations = iterations in
      if length deform_iterations \<ge> 3 \<and> last deform_iterations > 25
      then deform_iterations[length deform_iterations - 1 := 25]
      else deform_iterations)"

text \<open>Strictly decreasing lists of scale factors (coarsest first).\<close>

fun strictly_decreasing :: "int list \<Rightarrow> bool" where
  "strictly_decreasing [] = True"
| "strictly_decreasing [x] = True"
| "strictly_decreasing (x # y # ys) = (x > y \<and> strictly_decreasing (y # ys))"

section \<open>The registration run (util\_fireants.py, lines 74--204)\<close>

text \<open>
  \<^verbatim>\<open>run_fireants_registration\<close> is straight-line code over the FireANTs library: it
  loads two images, optionally runs the moments initialisation, runs the affine and the
  greedy deformable registration and writes the results. Everything it does is a call
  into the library (or \<^verbatim>\<open>print\<close>), and each such call either returns a value or raises;
  the function has no \<^verbatim>\<open>try\<close>, so the first exception ends the run.

  The library is not part of the repository, so it is a parameter of the model. A Python
  object of the library is an opaque value of type \<open>'v\<close> (a reference: a method that
  mutates its receiver, such as \<^verbatim>\<open>optimize\<close>, leaves the reference as it is). A call is
  the method with the arguments the source passes; keyword arguments are the fields of
  a record.
\<close>

datatype exn = Exn string

record 'v moments_args =
  m_scale :: real
  m_fixed_images :: 'v
  m_moving_images :: 'v
  m_moments :: int
  m_orientation :: string
  m_blur :: bool
  m_loss_type :: string
  m_cc_kernel_type :: string
  m_cc_kernel_size :: int

record 'v affine_args =
  a_scales :: "int list"
  a_iterations :: "int list"
  a_fixed_images :: 'v
  a_moving_images :: 'v
  a_init_rigid :: "'v option"
  a_loss_type :: string
  a_optimizer :: string
  a_optimizer_lr :: real
  a_cc_kernel_size :: int

record 'v greedy_args =
  g_scales :: "int list"
  g_iterations :: "int list"
  g_fixed_images :: 'v
  g_moving_images :: 'v
  g_cc_kernel_size :: int
  g_deformation_type :: string
  g_optimizer :: string
  g_optimizer_lr :: real
  g_smooth_grad_sigma :: real
  g_init_affine :: 'v

datatype 'v call =
    Print string
  | Image_load_file string
  | BatchedImages "'v list"
  | FakeBatchedImages 'v 'v
  | Write_image 'v string
  | Tensor_detach 'v
  | MomentsRegistration "'v moments_args"
  | Moments_optimize 'v
  | Moments_get_affine_init 'v
  | Moments_save_as_ants_transforms 'v string
  | Moments_evaluate 'v 'v 'v
  | AffineRegistration "'v affine_args"
  | Affine_optimize 'v
  | Affine_get_affine_matrix 'v
  | Affine_save_as_ants_transforms 'v "string list"
  | GreedyRegistration "'v greedy_args"
  | Greedy_optimize 'v
  | Greedy_evaluate 'v 'v 'v
  | Greedy_save_as_ants_transforms 'v "string list" bool

text \<open>
  The state of a run is the log of the calls that have returned, each with the value it
  returned. The library decides the outcome of a call from the call and from everything
  that happened before it: \<open>Inl\<close> is a raised exception, \<open>Inr\<close> the returned value.
\<close>

type_synonym 'v event = "'v call \<times> 'v"

type_synonym 'v library = "'v event list \<Rightarrow> 'v call \<Rightarrow> exn + 'v"

type_synonym ('v, 'a) prog = "'v event list \<Rightarrow> (exn + 'a) \<times> 'v event list"

definition invoke :: "'v library \<Rightarrow> 'v call \<Rightarrow> ('v, 'v) prog" where
  "invoke lib c evs =
     (case lib evs c of
        Inl e \<Rightarrow> (Inl e, evs)
      | Inr v \<Rightarrow> (Inr v, evs @ [(c, v)]))"

definition done_with :: "'a \<Rightarrow> ('v, 'a) prog" where
  "done_with x evs = (Inr x, evs)"

definition andthen :: "('v, 'a) prog \<Rightarrow> ('a \<Rightarrow> ('v, 'b) prog) \<Rightarrow> ('v, 'b) prog" where
  "andthen m f evs =
     (case m evs of
        (Inl e, evs') \<Rightarrow> (Inl e, evs')
      | (Inr x, evs') \<Rightarrow> f x evs')"

text \<open>
  The nine messages the function prints (f-strings over the profile name or a path);
  \<open>quote\<close> is the character \<^verbatim>\<open>'\<close> of the messages.
\<close>

definition quote :: string where
  "quote = [CHR 0x27]"

definition msg_running_moments :: "string \<Rightarrow> string" where
  "msg_running_moments profile =
     ''[FireANTs] Running moments initialization (profile='' @ quote @ profile @ quote @ '')''"

definition msg_writing_moments :: "string \<Rightarrow> string" where
  "msg_writing_moments moments_path =
     ''[FireANTs] Writing moments init transform (ANTs format) to: '' @ moments_path"

definition msg_writing_moments_warped :: "string \<Rightarrow> string" where
  "msg_writing_moments_warped moved_moments_path =
     ''[FireANTs] Writing moments-warped image to: '' @ moved_moments_path"

definition msg_running_affine :: "string \<Rightarrow> string" where
  "msg_running_affine profile =
     ''[FireANTs] Running affine registration with profile='' @ quote @ profile @ quote"

definition msg_writing_affine :: "string \<Rightarrow> string" where
  "msg_writing_affine affine_path =
     ''[FireANTs] Writing affine transform (ANTs format) to: '' @ affine_path"

definition msg_running_deformable :: "string \<Rightarrow> string" where
  "msg_running_deformable profile =
     ''[FireANTs] Running deformable registration with profile='' @ quote @ profile @ quote"

definition msg_writing_moved :: "string \<Rightarrow> string" where
  "msg_writing_moved moved_path = ''[FireANTs] Writing moved image to: '' @ moved_path"

definition msg_writing_forward :: "string \<Rightarrow> string" where
  "msg_writing_forward forward_warp_path =
     ''[FireANTs] Writing forward deformation (ANTs format) to: '' @ forward_warp_path"

definition msg_writing_inverse :: "string \<Rightarrow> string" where
  "msg_writing_inverse inverse_warp_path =
     ''[FireANTs] Writing inverse deformation (ANTs format) to: '' @ inverse_warp_path"

definition run_fireants_registration ::
  "'v library \<Rightarrow> (string \<Rightarrow> string) \<Rightarrow> string \<Rightarrow> string \<Rightarrow> string \<Rightarrow> string \<Rightarrow> bool
     \<Rightarrow> ('v, unit) prog" where
  "run_fireants_registration lib lower fixed_path moving_path out_prefix profile do_moments =
    (case get_profile_params lower profile of (scales, iterations, affine_lr, deform_lr) \<Rightarrow>
     andthen (invoke lib (Image_load_file fixed_path)) (\<lambda>fixed_img.
     andthen (invoke lib (Image_load_file moving_path)) (\<lambda>moving_img.
     andthen (invoke lib (BatchedImages [fixed_img])) (\<lambda>fixed_batch.
     andthen (invoke lib (BatchedImages [moving_img])) (\<lambda>moving_batch.
     andthen
       (if do_moments then
          andthen (invoke lib (MomentsRegistration
            \<lparr>m_scale = 1, m_fixed_images = fixed_batch, m_moving_images = moving_batch,
             m_moments = 2, m_orientation = ''rot'', m_blur = False,
             m_loss_type = ''fusedcc'', m_cc_kernel_type = ''rectangular'',
             m_cc_kernel_size = 5\<rparr>)) (\<lambda>moments.
          andthen (invoke lib (Print (msg_running_moments profile))) (\<lambda>_.
          andthen (invoke lib (Moments_optimize moments)) (\<lambda>_.
          andthen (invoke lib (Moments_get_affine_init moments)) (\<lambda>affine_init.
          andthen (invoke lib (Tensor_detach affine_init)) (\<lambda>init_rigid.
          (let moments_path = out_prefix @ ''MomentsInit.mat'' in
          andthen (invoke lib (Print (msg_writing_moments moments_path))) (\<lambda>_.
          andthen (invoke lib (Moments_save_as_ants_transforms moments moments_path)) (\<lambda>_.
          andthen (invoke lib (Moments_evaluate moments fixed_batch moving_batch))
            (\<lambda>moved_moments.
          andthen (invoke lib (FakeBatchedImages moved_moments fixed_batch))
            (\<lambda>moved_moments_batch.
          (let moved_moments_path = out_prefix @ ''MomentsWarped.nii.gz'' in
          andthen (invoke lib (Print (msg_writing_moments_warped moved_moments_path))) (\<lambda>_.
          andthen (invoke lib (Write_image moved_moments_batch moved_moments_path)) (\<lambda>_.
          done_with (Some init_rigid))))))))))))))
        else done_with None) (\<lambda>init_rigid.
     andthen (invoke lib (AffineRegistration
       \<lparr>a_scales = scales, a_iterations = iterations, a_fixed_images = fixed_batch,
        a_moving_images = moving_batch, a_init_rigid = init_rigid, a_loss_type = ''cc'',
        a_optimizer = ''Adam'', a_optimizer_lr = affine_lr, a_cc_kernel_size = 5\<rparr>))
       (\<lambda>affine.
     andthen (invoke lib (Print (msg_running_affine profile))) (\<lambda>_.
     andthen (invoke lib (Affine_optimize affine)) (\<lambda>_.
     andthen (invoke lib (Affine_get_affine_matrix affine)) (\<lambda>affine_matrix.
     andthen (invoke lib (Tensor_detach affine_matrix)) (\<lambda>init_affine.
     (let affine_path = out_prefix @ ''0GenericAffine.mat'' in
     andthen (invoke lib (Print (msg_writing_affine affine_path))) (\<lambda>_.
     andthen (invoke lib (Affine_save_as_ants_transforms affine [affine_path])) (\<lambda>_.
     (let deform_iterations = deform_iterations_of iterations in
     andthen (invoke lib (GreedyRegistration
       \<lparr>g_scales = scales, g_iterations = deform_iterations, g_fixed_images = fixed_batch,
        g_moving_images = moving_batch, g_cc_kernel_size = 5,
        g_deformation_type = ''compositive'', g_optimizer = ''Adam'',
        g_optimizer_lr = deform_lr, g_smooth_grad_sigma = 1 / 2,
        g_init_affine = init_affine\<rparr>)) (\<lambda>reg.
     andthen (invoke lib (Print (msg_running_deformable profile))) (\<lambda>_.
     andthen (invoke lib (Greedy_optimize reg)) (\<lambda>_.
     andthen (invoke lib (Greedy_evaluate reg fixed_batch moving_batch)) (\<lambda>moved.
     andthen (invoke lib (FakeBatchedImages moved fixed_batch)) (\<lambda>moved_batch.
     (let moved_path = out_prefix @ ''Warped.nii.gz'' in
     andthen (invoke lib (Print (msg_writing_moved moved_path))) (\<lambda>_.
     andthen (invoke lib (Write_image moved_batch moved_path)) (\<lambda>_.
     (let forward_warp_path = out_prefix @ ''Def.nii.gz'';
          inverse_warp_path = out_prefix @ ''InvDef.nii.gz'' in
     andthen (invoke lib (Print (msg_writing_forward forward_warp_path))) (\<lambda>_.
     andthen (invoke lib (Greedy_save_as_ants_transforms reg [forward_warp_path] False))
       (\<lambda>_.
     andthen (invoke lib (Print (msg_writing_inverse inverse_warp_path))) (\<lambda>_.
     andthen (invoke lib (Greedy_save_as_ants_transforms reg [inverse_warp_path] True))
       (\<lambda>_.
     done_with ()))))))))))))))))))))))))))))"

text \<open>
  The files of a run. Four methods of the library write a file: \<^verbatim>\<open>write_image\<close> writes
  an image volume, and the three \<^verbatim>\<open>save_as_ants_transforms\<close> write the transform of the
  registration they are called on, to the path (or to each path of the list) they are
  given; the greedy one writes the inverse warp when \<^verbatim>\<open>save_inverse\<close> is set and the
  forward warp otherwise. A file counts as written once its call has returned; what a
  call that raises leaves behind is not modelled.
\<close>

datatype artifact =
    Image_volume
  | Moments_transform
  | Affine_transform
  | Forward_warp
  | Inverse_warp

fun writes :: "'v call \<Rightarrow> (string \<times> artifact) list" where
  "writes (Write_image img path) = [(path, Image_volume)]"
| "writes (Moments_save_as_ants_transforms m path) = [(path, Moments_transform)]"
| "writes (Affine_save_as_ants_transforms a paths) =
     map (\<lambda>path. (path, Affine_transform)) paths"
| "writes (Greedy_save_as_ants_transforms g paths save_inverse) =
     map (\<lambda>path. (path, if save_inverse then Inverse_warp else Forward_warp)) paths"
| "writes _ = []"

definition written :: "'v event list \<Rightarrow> (string \<times> artifact) list" where
  "written evs = concat (map (\<lambda>ev. writes (fst ev)) evs)"

text \<open>
  The stage a call belongs to, for the calls that only one stage makes: the constructor
  of one of the three registration classes, or a method called on its object (its
  optimisation, reading or saving its transform, evaluating it). The classification is
  by the object and says nothing about when files are written: saving a transform is
  filed under the stage whose registration is saved. Printing, loading, batching,
  detaching a tensor and writing an image are shared by several stages and carry no
  stage of their own.
\<close>

datatype stage = Moments | Affine | Deformable

fun stage_of :: "'v call \<Rightarrow> stage option" where
  "stage_of (MomentsRegistration args) = Some Moments"
| "stage_of (Moments_optimize m) = Some Moments"
| "stage_of (Moments_get_affine_init m) = Some Moments"
| "stage_of (Moments_save_as_ants_transforms m path) = Some Moments"
| "stage_of (Moments_evaluate m f mv) = Some Moments"
| "stage_of (AffineRegistration args) = Some Affine"
| "stage_of (Affine_optimize a) = Some Affine"
| "stage_of (Affine_get_affine_matrix a) = Some Affine"
| "stage_of (Affine_save_as_ants_transforms a paths) = Some Affine"
| "stage_of (GreedyRegistration args) = Some Deformable"
| "stage_of (Greedy_optimize g) = Some Deformable"
| "stage_of (Greedy_evaluate g f mv) = Some Deformable"
| "stage_of (Greedy_save_as_ants_transforms g paths save_inverse) = Some Deformable"
| "stage_of _ = None"

definition stages :: "'v event list \<Rightarrow> stage list" where
  "stages evs = List.map_filter (\<lambda>ev. stage_of (fst ev)) evs"

text \<open>
  The calls of a complete run, in order: the \<open>i\<close>-th entry is the \<open>i\<close>-th call, as a
  function of the list \<open>vs\<close> of the values the calls before it returned (33 calls with
  the moments stage, 22 without). A log follows the plan when each of its calls is the
  one the plan gives for the values logged before it; \<open>run_follows\<close> below shows that
  every log of the model does.
\<close>

definition plan ::
  "(string \<Rightarrow> string) \<Rightarrow> string \<Rightarrow> string \<Rightarrow> string \<Rightarrow> string \<Rightarrow> bool
     \<Rightarrow> ('v list \<Rightarrow> 'v call) list" where
  "plan lower fixed_path moving_path out_prefix profile do_moments =
    (case get_profile_params lower profile of (scales, iterations, affine_lr, deform_lr) \<Rightarrow>
     let k = (if do_moments then 15 else 4) in
     [\<lambda>vs. Image_load_file fixed_path,
      \<lambda>vs. Image_load_file moving_path,
      \<lambda>vs. BatchedImages [vs ! 0],
      \<lambda>vs. BatchedImages [vs ! 1]] @
     (if do_moments then
       [\<lambda>vs. MomentsRegistration
           \<lparr>m_scale = 1, m_fixed_images = vs ! 2, m_moving_images = vs ! 3,
            m_moments = 2, m_orientation = ''rot'', m_blur = False,
            m_loss_type = ''fusedcc'', m_cc_kernel_type = ''rectangular'',
            m_cc_kernel_size = 5\<rparr>,
        \<lambda>vs. Print (msg_running_moments profile),
        \<lambda>vs. Moments_optimize (vs ! 4),
        \<lambda>vs. Moments_get_affine_init (vs ! 4),
        \<lambda>vs. Tensor_detach (vs ! 7),
        \<lambda>vs. Print (msg_writing_moments (out_prefix @ ''MomentsInit.mat'')),
        \<lambda>vs. Moments_save_as_ants_transforms (vs ! 4) (out_prefix @ ''MomentsInit.mat''),
        \<lambda>vs. Moments_evaluate (vs ! 4) (vs ! 2) (vs ! 3),
        \<lambda>vs. FakeBatchedImages (vs ! 11) (vs ! 2),
        \<lambda>vs. Print (msg_writing_moments_warped (out_prefix @ ''MomentsWarped.nii.gz'')),
        \<lambda>vs. Write_image (vs ! 12) (out_prefix @ ''MomentsWarped.nii.gz'')]
      else []) @
     [\<lambda>vs. AffineRegistration
         \<lparr>a_scales = scales, a_iterations = iterations, a_fixed_images = vs ! 2,
          a_moving_images = vs ! 3,
          a_init_rigid = (if do_moments then Some (vs ! 8) else None),
          a_loss_type = ''cc'', a_optimizer = ''Adam'', a_optimizer_lr = affine_lr,
          a_cc_kernel_size = 5\<rparr>,
      \<lambda>vs. Print (msg_running_affine profile),
      \<lambda>vs. Affine_optimize (vs ! k),
      \<lambda>vs. Affine_get_affine_matrix (vs ! k),
      \<lambda>vs. Tensor_detach (vs ! (k + 3)),
      \<lambda>vs. Print (msg_writing_affine (out_prefix @ ''0GenericAffine.mat'')),
      \<lambda>vs. Affine_save_as_ants_transforms (vs ! k) [out_prefix @ ''0GenericAffine.mat''],
      \<lambda>vs. GreedyRegistration
         \<lparr>g_scales = scales, g_iterations = deform_iterations_of iterations,
          g_fixed_images = vs ! 2, g_moving_images = vs ! 3, g_cc_kernel_size = 5,
          g_deformation_type = ''compositive'', g_optimizer = ''Adam'',
          g_optimizer_lr = deform_lr, g_smooth_grad_sigma = 1 / 2,
          g_init_affine = vs ! (k + 4)\<rparr>,
      \<lambda>vs. Print (msg_running_deformable profile),
      \<lambda>vs. Greedy_optimize (vs ! (k + 7)),
      \<lambda>vs. Greedy_evaluate (vs ! (k + 7)) (vs ! 2) (vs ! 3),
      \<lambda>vs. FakeBatchedImages (vs ! (k + 10)) (vs ! 2),
      \<lambda>vs. Print (msg_writing_moved (out_prefix @ ''Warped.nii.gz'')),
      \<lambda>vs. Write_image (vs ! (k + 11)) (out_prefix @ ''Warped.nii.gz''),
      \<lambda>vs. Print (msg_writing_forward (out_prefix @ ''Def.nii.gz'')),
      \<lambda>vs. Greedy_save_as_ants_transforms (vs ! (k + 7)) [out_prefix @ ''Def.nii.gz''] False,
      \<lambda>vs. Print (msg_writing_inverse (out_prefix @ ''InvDef.nii.gz'')),
      \<lambda>vs. Greedy_save_as_ants_transforms (vs ! (k + 7)) [out_prefix @ ''InvDef.nii.gz'']
             True])"

definition follows :: "('v list \<Rightarrow> 'v call) list \<Rightarrow> 'v event list \<Rightarrow> bool" where
  "follows P evs =
     (length evs \<le> length P \<and>
      list_all (\<lambda>i. fst (evs ! i) = (P ! i) (map snd (take i evs))) [0..<length evs])"

definition tracks ::
  "('v list \<Rightarrow> 'v call) list \<Rightarrow> nat \<Rightarrow> 'v list \<Rightarrow> ('v, 'a) prog \<Rightarrow> bool" where
  "tracks P n vs m =
     (\<forall>evs. length evs = n \<and> map snd evs = vs \<and> follows P evs \<longrightarrow>
        (case m evs of (r, evs') \<Rightarrow>
           follows P evs' \<and> ((\<exists>u. r = Inr u) = (length evs' = length P))))"

text \<open>
  Two libraries for concrete runs: in \<open>lib_ok\<close> every call returns (a fresh reference,
  the number of the call); in \<open>lib_deform_fails\<close> the deformable optimisation raises and
  every other call returns.
\<close>

definition lib_ok :: "nat library" where
  "lib_ok evs c = Inr (length evs)"


text \<open>What each call of the plan writes, call by call.\<close>

definition plan_writes :: "string \<Rightarrow> bool \<Rightarrow> (string \<times> artifact) list list" where
  "plan_writes out_prefix do_moments =
     [[], [], [], []] @
     (if do_moments then
        [[], [], [], [], [], [],
         [(out_prefix @ ''MomentsInit.mat'', Moments_transform)],
         [], [], [],
         [(out_prefix @ ''MomentsWarped.nii.gz'', Image_volume)]]
      else []) @
     [[], [], [], [], [], [],
      [(out_prefix @ ''0GenericAffine.mat'', Affine_transform)],
      [], [], [], [], [], [],
      [(out_prefix @ ''Warped.nii.gz'', Image_volume)],
      [],
      [(out_prefix @ ''Def.nii.gz'', Forward_warp)],
      [],
      [(out_prefix @ ''InvDef.nii.gz'', Inverse_warp)]]"

text \<open>The stage of each call of the plan, call by call.\<close>

definition plan_stages :: "bool \<Rightarrow> stage option list" where
  "plan_stages do_moments =
     [None, None, None, None] @
     (if do_moments then
        [Some Moments, None, Some Moments, Some Moments, None, None, Some Moments,
         Some Moments, None, None, None]
      else []) @
     [Some Affine, None, Some Affine, Some Affine, None, None, Some Affine,
      Some Deformable, None, Some Deformable,
      Some Deformable, None, None, None, None, Some Deformable, None, Some Deformable]"

definition never_raises :: "'v library \<Rightarrow> bool" where
  "never_raises lib = (\<forall>evs c. \<exists>v. lib evs c = Inr v)"

definition succeeds :: "('v, 'a) prog \<Rightarrow> bool" where
  "succeeds m = (\<forall>evs. \<exists>x evs'. m evs = (Inr x, evs'))"

section \<open>Properties of the profile table\<close>

lemma get_profile_params_cases:
  "get_profile_params lower p = ([4, 2, 1], [8, 2, 0], 3 / 1000, 1 / 2) \<or>
   get_profile_params lower p = ([4, 2, 1], [100, 50, 0], 3 / 1000, 1 / 2) \<or>
   get_profile_params lower p = ([4, 2, 1], [50, 50, 25], 3 / 1000, 1 / 2) \<or>
   get_profile_params lower p = ([4, 2, 1], [200, 100, 50], 3 / 1000, 1 / 2)"
  by (simp add: get_profile_params_def Let_def)

lemma ascii_lower_QUICK: "ascii_lower ''QuIcK'' = ''quick''"
  by code_simp

text \<open>
  Claim C9. For every profile name, the profile table returns a scales list and an
  iterations list of the same length, three; the scales are strictly decreasing and end
  with the factor 1; the affine and the deformable learning rate are strictly positive.
\<close>

theorem profile_params_shape:
  "length (scales_of (get_profile_params lower p)) = 3 \<and>
   length (iterations_of (get_profile_params lower p)) = 3 \<and>
   length (scales_of (get_profile_params lower p)) =
     length (iterations_of (get_profile_params lower p)) \<and>
   strictly_decreasing (scales_of (get_profile_params lower p)) \<and>
   last (scales_of (get_profile_params lower p)) = 1 \<and>
   0 < affine_lr_of (get_profile_params lower p) \<and>
   0 < deform_lr_of (get_profile_params lower p)"
  using get_profile_params_cases [of lower p]
  by (auto simp: scales_of_def iterations_of_def affine_lr_of_def deform_lr_of_def)

theorem profile_params_shape_witness:
  "length (scales_of (get_profile_params ascii_lower ''QuIcK'')) = 3 \<and>
   iterations_of (get_profile_params ascii_lower ''QuIcK'') = [100, 50, 0] \<and>
   strictly_decreasing (scales_of (get_profile_params ascii_lower ''QuIcK'')) \<and>
   last (scales_of (get_profile_params ascii_lower ''QuIcK'')) = 1 \<and>
   0 < affine_lr_of (get_profile_params ascii_lower ''QuIcK'')"
  using profile_params_shape [of ascii_lower "''QuIcK''"]
  by (simp add: get_profile_params_def ascii_lower_QUICK iterations_of_def)

text \<open>
  Claim C10. The profile table is total and case-insensitive: it returns parameters for
  every name (the model has no failing branch, as the source has no \<^verbatim>\<open>raise\<close>), the
  result depends on the lowercased name only, the lowercased names \<^verbatim>\<open>test\<close>,
  \<^verbatim>\<open>quick\<close> and \<^verbatim>\<open>balanced\<close> select their own parameters, and every other name,
  \<^verbatim>\<open>default\<close> and every unrecognised string, yields the default parameters: scales
  (4, 2, 1), iterations (200, 100, 50), learning rates 3e-3 and 0.5.
\<close>

theorem profile_params_by_lowercase:
  "(lower p = lower q \<longrightarrow> get_profile_params lower p = get_profile_params lower q) \<and>
   (lower p = ''test'' \<longrightarrow>
      get_profile_params lower p = ([4, 2, 1], [8, 2, 0], 3 / 1000, 1 / 2)) \<and>
   (lower p = ''quick'' \<longrightarrow>
      get_profile_params lower p = ([4, 2, 1], [100, 50, 0], 3 / 1000, 1 / 2)) \<and>
   (lower p = ''balanced'' \<longrightarrow>
      get_profile_params lower p = ([4, 2, 1], [50, 50, 25], 3 / 1000, 1 / 2)) \<and>
   (lower p \<noteq> ''test'' \<and> lower p \<noteq> ''quick'' \<and> lower p \<noteq> ''balanced'' \<longrightarrow>
      get_profile_params lower p = ([4, 2, 1], [200, 100, 50], 3 / 1000, 1 / 2))"
  by (simp add: get_profile_params_def Let_def)

theorem profile_params_by_lowercase_witness:
  "ascii_lower ''DeFault'' = ascii_lower ''default'' \<and>
   get_profile_params ascii_lower ''DeFault'' = get_profile_params ascii_lower ''default'' \<and>
   ascii_lower ''TEST'' = ''test'' \<and>
   get_profile_params ascii_lower ''TEST'' = ([4, 2, 1], [8, 2, 0], 3 / 1000, 1 / 2) \<and>
   ascii_lower ''QuIcK'' = ''quick'' \<and>
   get_profile_params ascii_lower ''QuIcK'' = ([4, 2, 1], [100, 50, 0], 3 / 1000, 1 / 2) \<and>
   ascii_lower ''Balanced'' = ''balanced'' \<and>
   get_profile_params ascii_lower ''Balanced'' = ([4, 2, 1], [50, 50, 25], 3 / 1000, 1 / 2) \<and>
   ascii_lower ''fast'' \<noteq> ''test'' \<and> ascii_lower ''fast'' \<noteq> ''quick'' \<and>
   ascii_lower ''fast'' \<noteq> ''balanced'' \<and>
   get_profile_params ascii_lower ''fast'' = ([4, 2, 1], [200, 100, 50], 3 / 1000, 1 / 2) \<and>
   get_profile_params ascii_lower ''DeFault'' = ([4, 2, 1], [200, 100, 50], 3 / 1000, 1 / 2)"
proof -
  have l1: "ascii_lower ''DeFault'' = ''default''" and l2: "ascii_lower ''default'' = ''default''"
    and l3: "ascii_lower ''TEST'' = ''test''" and l4: "ascii_lower ''QuIcK'' = ''quick''"
    and l5: "ascii_lower ''Balanced'' = ''balanced''" and l6: "ascii_lower ''fast'' = ''fast''"
    by code_simp+
  show ?thesis
    using profile_params_by_lowercase [of ascii_lower "''DeFault''" "''default''"]
      profile_params_by_lowercase [of ascii_lower "''TEST''" "''TEST''"]
      profile_params_by_lowercase [of ascii_lower "''QuIcK''" "''QuIcK''"]
      profile_params_by_lowercase [of ascii_lower "''Balanced''" "''Balanced''"]
      profile_params_by_lowercase [of ascii_lower "''fast''" "''fast''"]
    by (auto simp: l1 l2 l3 l4 l5 l6)
qed

section \<open>The cap on the last iteration budget\<close>

lemma deform_iterations_of_shape:
  "length (deform_iterations_of its) = length its \<and>
   butlast (deform_iterations_of its) = butlast its \<and>
   last (deform_iterations_of its) = (if 3 \<le> length its \<and> 25 < last its then 25 else last its)"
proof (cases "3 \<le> length its \<and> 25 < last its")
  case True
  then have ne: "its \<noteq> []" by auto
  have "deform_iterations_of its = its[length its - 1 := 25]"
    using True by (simp add: deform_iterations_of_def)
  then show ?thesis
    using True ne by (simp add: butlast_list_update last_list_update)
next
  case False
  then show ?thesis by (auto simp: deform_iterations_of_def)
qed

section \<open>Every log follows the plan\<close>

lemma andthen_done: "andthen (done_with x) f = f x"
  by (simp add: andthen_def done_with_def fun_eq_iff)

lemma andthen_assoc: "andthen (andthen m f) g = andthen m (\<lambda>x. andthen (f x) g)"
  by (auto simp: andthen_def fun_eq_iff split: prod.splits sum.splits)

lemma follows_Nil: "follows P []"
  by (simp add: follows_def)

lemma follows_snoc:
  assumes "follows P evs" "length evs < length P" "(P ! length evs) (map snd evs) = c"
  shows "follows P (evs @ [(c, v)])"
  using assms by (auto simp: follows_def list_all_iff nth_append)

lemma follows_nth:
  assumes "follows P evs" "i < length evs"
  shows "fst (evs ! i) = (P ! i) (map snd (take i evs))"
  using assms by (simp add: follows_def list_all_iff)

lemma tracks_step:
  assumes "n < length P" "(P ! n) vs = c" "\<And>v. tracks P (Suc n) (vs @ [v]) (f v)"
  shows "tracks P n vs (andthen (invoke lib c) f)"
  unfolding tracks_def
proof (intro allI impI)
  fix evs
  assume h: "length evs = n \<and> map snd evs = vs \<and> follows P evs"
  show "case andthen (invoke lib c) f evs of
          (r, evs') \<Rightarrow> follows P evs' \<and> ((\<exists>u. r = Inr u) = (length evs' = length P))"
  proof (cases "lib evs c")
    case (Inl e)
    then show ?thesis using h assms(1) by (simp add: andthen_def invoke_def)
  next
    case (Inr v)
    have "follows P (evs @ [(c, v)])"
      using h assms(1,2) by (intro follows_snoc) auto
    then have "case f v (evs @ [(c, v)]) of
          (r, evs') \<Rightarrow> follows P evs' \<and> ((\<exists>u. r = Inr u) = (length evs' = length P))"
      using assms(3) [of v] h unfolding tracks_def by simp
    then show ?thesis using Inr by (simp add: andthen_def invoke_def)
  qed
qed

lemma tracks_done:
  assumes "n = length P"
  shows "tracks P n vs (done_with x)"
  using assms by (simp add: tracks_def done_with_def)

lemma length_plan: "length (plan lower fp mp pre prof dm) = (if dm then 33 else 22)"
  by (simp add: plan_def split: prod.splits)

lemma run_tracks_moments:
  "tracks (plan lower fp mp pre prof True) 0 []
     (run_fireants_registration lib lower fp mp pre prof True)"
proof -
  obtain scales its alr dlr where gp: "get_profile_params lower prof = (scales, its, alr, dlr)"
    by (cases "get_profile_params lower prof")
  show ?thesis
    unfolding run_fireants_registration_def gp prod.case Let_def if_True
      andthen_assoc andthen_done
    apply (rule tracks_step, simp add: plan_def gp, simp add: plan_def gp, simp (no_asm))+
    apply (rule tracks_done)
    apply (simp add: plan_def gp)
    done
qed

lemma run_tracks_no_moments:
  "tracks (plan lower fp mp pre prof False) 0 []
     (run_fireants_registration lib lower fp mp pre prof False)"
proof -
  obtain scales its alr dlr where gp: "get_profile_params lower prof = (scales, its, alr, dlr)"
    by (cases "get_profile_params lower prof")
  show ?thesis
    unfolding run_fireants_registration_def gp prod.case Let_def if_False
      andthen_assoc andthen_done
    apply (rule tracks_step, simp add: plan_def gp, simp add: plan_def gp, simp (no_asm))+
    apply (rule tracks_done)
    apply (simp add: plan_def gp)
    done
qed

lemma run_follows:
  assumes "run_fireants_registration lib lower fp mp pre prof dm [] = (r, evs)"
  shows "follows (plan lower fp mp pre prof dm) evs"
    and "(\<exists>u. r = Inr u) = (length evs = (if dm then 33 else 22))"
proof -
  define P :: "('a list \<Rightarrow> 'a call) list" where "P = plan lower fp mp pre prof dm"
  have "tracks P 0 [] (run_fireants_registration lib lower fp mp pre prof dm)"
    unfolding P_def using run_tracks_moments run_tracks_no_moments by (cases dm) auto
  then have "case run_fireants_registration lib lower fp mp pre prof dm [] of
      (r, evs') \<Rightarrow> follows P evs' \<and> ((\<exists>u. r = Inr u) = (length evs' = length P))"
    unfolding tracks_def by (simp add: follows_Nil)
  then have "follows P evs \<and> ((\<exists>u. r = Inr u) = (length evs = length P))"
    using assms by simp
  then show "follows (plan lower fp mp pre prof dm) evs"
    and "(\<exists>u. r = Inr u) = (length evs = (if dm then 33 else 22))"
    by (simp_all add: P_def length_plan)
qed

text \<open>What a log that follows a plan inherits from the plan.\<close>

lemma follows_list_all:
  assumes "follows P evs" "list_all (\<lambda>s. \<forall>vs. Q (s vs)) P"
  shows "list_all (\<lambda>ev. Q (fst ev)) evs"
proof -
  have "Q (fst (evs ! i))" if "i < length evs" for i
  proof -
    have "i < length P" using assms(1) that by (simp add: follows_def)
    then have "\<forall>vs. Q ((P ! i) vs)" using assms(2) by (simp add: list_all_length)
    then show ?thesis using follows_nth [OF assms(1) that] by simp
  qed
  then show ?thesis by (simp add: list_all_length)
qed

lemma follows_map:
  assumes "follows P evs" "list_all2 (\<lambda>s a. \<forall>vs. f (s vs) = a) P as"
  shows "map (\<lambda>ev. f (fst ev)) evs = take (length evs) as"
proof (rule nth_equalityI)
  have len: "length as = length P" using assms(2) by (simp add: list_all2_lengthD)
  have le: "length evs \<le> length P" using assms(1) by (simp add: follows_def)
  show "length (map (\<lambda>ev. f (fst ev)) evs) = length (take (length evs) as)"
    using len le by simp
  fix i assume "i < length (map (\<lambda>ev. f (fst ev)) evs)"
  then have i: "i < length evs" by simp
  then have "i < length P" using le by simp
  then have "\<forall>vs. f ((P ! i) vs) = as ! i" using assms(2) by (simp add: list_all2_conv_all_nth)
  then show "map (\<lambda>ev. f (fst ev)) evs ! i = take (length evs) as ! i"
    using follows_nth [OF assms(1) i] i by simp
qed

lemma follows_event:
  assumes "follows P evs" "i < length evs"
  shows "((P ! i) (map snd (take i evs)), snd (evs ! i)) \<in> set evs"
proof -
  have "evs ! i = ((P ! i) (map snd (take i evs)), snd (evs ! i))"
    using follows_nth [OF assms] by (metis prod.collapse)
  then show ?thesis using assms(2) by (metis nth_mem)
qed

lemma nth_values:
  assumes "j < i" "i \<le> length evs"
  shows "map snd (take i evs) ! j = snd (evs ! j)"
  using assms by simp

text \<open>A library that never raises runs every program to its end.\<close>

lemma succeeds_step:
  assumes "never_raises lib" "\<And>v. succeeds (f v)"
  shows "succeeds (andthen (invoke lib c) f)"
  unfolding succeeds_def
proof
  fix evs
  obtain v where v: "lib evs c = Inr v" using assms(1) unfolding never_raises_def by blast
  obtain x evs' where "f v (evs @ [(c, v)]) = (Inr x, evs')"
    using assms(2) unfolding succeeds_def by blast
  then show "\<exists>x evs'. andthen (invoke lib c) f evs = (Inr x, evs')"
    using v by (simp add: andthen_def invoke_def)
qed

lemma succeeds_done: "succeeds (done_with x)"
  by (simp add: succeeds_def done_with_def)

lemma run_succeeds:
  assumes "never_raises lib"
  shows "succeeds (run_fireants_registration lib lower fp mp pre prof dm)"
proof -
  obtain scales its alr dlr where gp: "get_profile_params lower prof = (scales, its, alr, dlr)"
    by (cases "get_profile_params lower prof")
  show ?thesis
  proof (cases dm)
    case True
    then have dm: "dm = True" by simp
    show ?thesis
      unfolding dm run_fireants_registration_def gp prod.case Let_def if_True
        andthen_assoc andthen_done
      by (intro succeeds_step succeeds_done assms)
  next
    case False
    then have dm: "dm = False" by simp
    show ?thesis
      unfolding dm run_fireants_registration_def gp prod.case Let_def if_False
        andthen_assoc andthen_done
      by (intro succeeds_step succeeds_done assms)
  qed
qed

lemma never_raises_lib_ok: "never_raises lib_ok"
  by (simp add: never_raises_def lib_ok_def)

lemma run_lib_ok:
  "fst (run_fireants_registration lib_ok lower fp mp pre prof dm []) = Inr ()"
proof -
  obtain x evs' where "run_fireants_registration lib_ok lower fp mp pre prof dm [] = (Inr x, evs')"
    using run_succeeds [OF never_raises_lib_ok] unfolding succeeds_def by blast
  then show ?thesis by simp
qed

section \<open>The files a run writes\<close>

lemma plan_writes_plan:
  "list_all2 (\<lambda>s a. \<forall>vs. writes (s vs) = a)
     (plan lower fp mp pre prof dm) (plan_writes pre dm)"
  by (simp add: plan_def plan_writes_def split: prod.splits)

lemma written_follows:
  assumes "follows (plan lower fp mp pre prof dm) evs"
  shows "written evs = concat (take (length evs) (plan_writes pre dm))"
  using follows_map [OF assms plan_writes_plan] by (simp add: written_def)

lemma concat_plan_writes:
  "concat (plan_writes pre dm) =
     (if dm then [(pre @ ''MomentsInit.mat'', Moments_transform),
                  (pre @ ''MomentsWarped.nii.gz'', Image_volume)] else []) @
     [(pre @ ''0GenericAffine.mat'', Affine_transform),
      (pre @ ''Warped.nii.gz'', Image_volume),
      (pre @ ''Def.nii.gz'', Forward_warp),
      (pre @ ''InvDef.nii.gz'', Inverse_warp)]"
  by (simp add: plan_writes_def)

lemma length_plan_writes: "length (plan_writes pre dm) = (if dm then 33 else 22)"
  by (simp add: plan_writes_def)



lemma andthen_invoke:
  "andthen (invoke lib c) f evs =
     (case lib evs c of Inl e \<Rightarrow> (Inl e, evs) | Inr v \<Rightarrow> f v (evs @ [(c, v)]))"
  by (simp add: andthen_def invoke_def split: sum.splits)

lemma ascii_lower_default: "ascii_lower ''default'' = ''default''"
  by code_simp

lemma default_params:
  "get_profile_params ascii_lower ''default'' = ([4, 2, 1], [200, 100, 50], 3 / 1000, 1 / 2)"
  by (simp add: get_profile_params_def ascii_lower_default)


text \<open>
  Claim C5. A run that completes has written exactly these files, in this order, all
  under the output prefix: with the moments stage its transform \<^verbatim>\<open>MomentsInit.mat\<close> and
  its resampled image \<^verbatim>\<open>MomentsWarped.nii.gz\<close>; then the affine transform
  \<^verbatim>\<open>0GenericAffine.mat\<close>, the moved image \<^verbatim>\<open>Warped.nii.gz\<close>, the forward warp
  \<^verbatim>\<open>Def.nii.gz\<close> and the inverse warp \<^verbatim>\<open>InvDef.nii.gz\<close>. The affine file is saved from
  the affine registration, the two warps from the greedy registration, and the moved
  image is the greedy registration evaluated on the fixed and the moving batch (the
  moving image resampled into the fixed space), wrapped with the fixed batch.
\<close>

theorem completed_run_outputs:
  assumes "run_fireants_registration lib lower fixed_path moving_path out_prefix profile
             do_moments [] = (Inr u, evs)"
  shows "written evs =
     (if do_moments then [(out_prefix @ ''MomentsInit.mat'', Moments_transform),
                          (out_prefix @ ''MomentsWarped.nii.gz'', Image_volume)] else []) @
     [(out_prefix @ ''0GenericAffine.mat'', Affine_transform),
      (out_prefix @ ''Warped.nii.gz'', Image_volume),
      (out_prefix @ ''Def.nii.gz'', Forward_warp),
      (out_prefix @ ''InvDef.nii.gz'', Inverse_warp)] \<and>
    (\<exists>fixed_img moving_img fixed_batch moving_batch aargs affine gargs reg moved moved_batch
        x1 x2 x3 x4.
       (Image_load_file fixed_path, fixed_img) \<in> set evs \<and>
       (Image_load_file moving_path, moving_img) \<in> set evs \<and>
       (BatchedImages [fixed_img], fixed_batch) \<in> set evs \<and>
       (BatchedImages [moving_img], moving_batch) \<in> set evs \<and>
       (AffineRegistration aargs, affine) \<in> set evs \<and>
       (Affine_save_as_ants_transforms affine [out_prefix @ ''0GenericAffine.mat''], x1)
         \<in> set evs \<and>
       (GreedyRegistration gargs, reg) \<in> set evs \<and>
       (Greedy_evaluate reg fixed_batch moving_batch, moved) \<in> set evs \<and>
       (FakeBatchedImages moved fixed_batch, moved_batch) \<in> set evs \<and>
       (Write_image moved_batch (out_prefix @ ''Warped.nii.gz''), x2) \<in> set evs \<and>
       (Greedy_save_as_ants_transforms reg [out_prefix @ ''Def.nii.gz''] False, x3)
         \<in> set evs \<and>
       (Greedy_save_as_ants_transforms reg [out_prefix @ ''InvDef.nii.gz''] True, x4)
         \<in> set evs)"
proof -
  let ?P = "plan lower fixed_path moving_path out_prefix profile do_moments"
  let ?k = "if do_moments then 15 else 4 :: nat"
  obtain scales its alr dlr
    where gp: "get_profile_params lower profile = (scales, its, alr, dlr)"
    by (cases "get_profile_params lower profile")
  have fol: "follows ?P evs" by (rule run_follows(1) [OF assms])
  have len: "length evs = (if do_moments then 33 else 22)"
    using run_follows(2) [OF assms] by simp
  then have "written evs = concat (plan_writes out_prefix do_moments)"
    using written_follows [OF fol] by (simp add: length_plan_writes)
  then have files: "written evs =
     (if do_moments then [(out_prefix @ ''MomentsInit.mat'', Moments_transform),
                          (out_prefix @ ''MomentsWarped.nii.gz'', Image_volume)] else []) @
     [(out_prefix @ ''0GenericAffine.mat'', Affine_transform),
      (out_prefix @ ''Warped.nii.gz'', Image_volume),
      (out_prefix @ ''Def.nii.gz'', Forward_warp),
      (out_prefix @ ''InvDef.nii.gz'', Inverse_warp)]"
    by (simp only: concat_plan_writes)
  have n0: "0 < length evs" and n1: "1 < length evs" and n2: "2 < length evs"
    and n3: "3 < length evs" and na: "?k < length evs" and n6: "?k + 6 < length evs"
    and n7: "?k + 7 < length evs" and n10: "?k + 10 < length evs"
    and n11: "?k + 11 < length evs" and n13: "?k + 13 < length evs"
    and n15: "?k + 15 < length evs" and n17: "?k + 17 < length evs"
    using len by simp_all
  have "(Image_load_file fixed_path, snd (evs ! 0)) \<in> set evs"
    using follows_event [OF fol n0] by (simp add: plan_def gp Let_def)
  moreover have "(Image_load_file moving_path, snd (evs ! 1)) \<in> set evs"
    using follows_event [OF fol n1] by (simp add: plan_def gp Let_def)
  moreover have "(BatchedImages [snd (evs ! 0)], snd (evs ! 2)) \<in> set evs"
    using follows_event [OF fol n2] n2 by (simp add: plan_def gp Let_def nth_values)
  moreover have "(BatchedImages [snd (evs ! 1)], snd (evs ! 3)) \<in> set evs"
    using follows_event [OF fol n3] n3 by (simp add: plan_def gp Let_def nth_values)
  moreover have "\<exists>aargs. (AffineRegistration aargs, snd (evs ! ?k)) \<in> set evs"
    using follows_event [OF fol na] by (auto simp: plan_def gp split: if_splits)
  moreover have "(Affine_save_as_ants_transforms (snd (evs ! ?k))
        [out_prefix @ ''0GenericAffine.mat''], snd (evs ! (?k + 6))) \<in> set evs"
    using follows_event [OF fol n6] n6 by (auto simp: plan_def gp nth_values split: if_splits)
  moreover have "\<exists>gargs. (GreedyRegistration gargs, snd (evs ! (?k + 7))) \<in> set evs"
    using follows_event [OF fol n7] by (auto simp: plan_def gp split: if_splits)
  moreover have "(Greedy_evaluate (snd (evs ! (?k + 7))) (snd (evs ! 2)) (snd (evs ! 3)),
        snd (evs ! (?k + 10))) \<in> set evs"
    using follows_event [OF fol n10] n10
    by (auto simp: plan_def gp nth_values split: if_splits)
  moreover have "(FakeBatchedImages (snd (evs ! (?k + 10))) (snd (evs ! 2)),
        snd (evs ! (?k + 11))) \<in> set evs"
    using follows_event [OF fol n11] n11
    by (auto simp: plan_def gp nth_values split: if_splits)
  moreover have "(Write_image (snd (evs ! (?k + 11))) (out_prefix @ ''Warped.nii.gz''),
        snd (evs ! (?k + 13))) \<in> set evs"
    using follows_event [OF fol n13] n13
    by (auto simp: plan_def gp nth_values split: if_splits)
  moreover have "(Greedy_save_as_ants_transforms (snd (evs ! (?k + 7)))
        [out_prefix @ ''Def.nii.gz''] False, snd (evs ! (?k + 15))) \<in> set evs"
    using follows_event [OF fol n15] n15
    by (auto simp: plan_def gp nth_values split: if_splits)
  moreover have "(Greedy_save_as_ants_transforms (snd (evs ! (?k + 7)))
        [out_prefix @ ''InvDef.nii.gz''] True, snd (evs ! (?k + 17))) \<in> set evs"
    using follows_event [OF fol n17] n17
    by (auto simp: plan_def gp nth_values split: if_splits)
  ultimately have "\<exists>fixed_img moving_img fixed_batch moving_batch aargs affine gargs reg
        moved moved_batch x1 x2 x3 x4.
       (Image_load_file fixed_path, fixed_img) \<in> set evs \<and>
       (Image_load_file moving_path, moving_img) \<in> set evs \<and>
       (BatchedImages [fixed_img], fixed_batch) \<in> set evs \<and>
       (BatchedImages [moving_img], moving_batch) \<in> set evs \<and>
       (AffineRegistration aargs, affine) \<in> set evs \<and>
       (Affine_save_as_ants_transforms affine [out_prefix @ ''0GenericAffine.mat''], x1)
         \<in> set evs \<and>
       (GreedyRegistration gargs, reg) \<in> set evs \<and>
       (Greedy_evaluate reg fixed_batch moving_batch, moved) \<in> set evs \<and>
       (FakeBatchedImages moved fixed_batch, moved_batch) \<in> set evs \<and>
       (Write_image moved_batch (out_prefix @ ''Warped.nii.gz''), x2) \<in> set evs \<and>
       (Greedy_save_as_ants_transforms reg [out_prefix @ ''Def.nii.gz''] False, x3)
         \<in> set evs \<and>
       (Greedy_save_as_ants_transforms reg [out_prefix @ ''InvDef.nii.gz''] True, x4)
         \<in> set evs"
    by blast
  then show ?thesis using files by simp
qed

theorem completed_run_outputs_witness:
  "fst (run_fireants_registration lib_ok ascii_lower ''fixed.nii.gz'' ''moving.nii.gz''
          ''/out/sub1_'' ''default'' True []) = Inr () \<and>
   written (snd (run_fireants_registration lib_ok ascii_lower ''fixed.nii.gz''
          ''moving.nii.gz'' ''/out/sub1_'' ''default'' True [])) =
     [(''/out/sub1_MomentsInit.mat'', Moments_transform),
      (''/out/sub1_MomentsWarped.nii.gz'', Image_volume),
      (''/out/sub1_0GenericAffine.mat'', Affine_transform),
      (''/out/sub1_Warped.nii.gz'', Image_volume),
      (''/out/sub1_Def.nii.gz'', Forward_warp),
      (''/out/sub1_InvDef.nii.gz'', Inverse_warp)]"
proof -
  let ?run = "run_fireants_registration lib_ok ascii_lower ''fixed.nii.gz'' ''moving.nii.gz''
          ''/out/sub1_'' ''default'' True []"
  have ok: "fst ?run = Inr ()" by (rule run_lib_ok)
  then have "?run = (Inr (), snd ?run)" by (metis prod.collapse)
  from completed_run_outputs [OF this] ok show ?thesis by simp
qed




section \<open>Two concrete runs\<close>

lemma run_lib_ok_moments:
  "run_fireants_registration lib_ok ascii_lower ''fixed.nii.gz'' ''moving.nii.gz''
     ''/out/sub1_'' ''default'' True [] =
   (Inr (),
     [(Image_load_file ''fixed.nii.gz'', 0),
      (Image_load_file ''moving.nii.gz'', 1),
      (BatchedImages [0], 2),
      (BatchedImages [1], 3),
      (MomentsRegistration
       \<lparr>m_scale = 1, m_fixed_images = 2, m_moving_images = 3, m_moments = 2,
        m_orientation = ''rot'', m_blur = False, m_loss_type = ''fusedcc'',
        m_cc_kernel_type = ''rectangular'', m_cc_kernel_size = 5\<rparr>, 4),
      (Print (msg_running_moments ''default''), 5),
      (Moments_optimize 4, 6),
      (Moments_get_affine_init 4, 7),
      (Tensor_detach 7, 8),
      (Print (msg_writing_moments ''/out/sub1_MomentsInit.mat''), 9),
      (Moments_save_as_ants_transforms 4 ''/out/sub1_MomentsInit.mat'', 10),
      (Moments_evaluate 4 2 3, 11),
      (FakeBatchedImages 11 2, 12),
      (Print (msg_writing_moments_warped ''/out/sub1_MomentsWarped.nii.gz''), 13),
      (Write_image 12 ''/out/sub1_MomentsWarped.nii.gz'', 14),
      (AffineRegistration
       \<lparr>a_scales = [4, 2, 1], a_iterations = [200, 100, 50], a_fixed_images = 2,
        a_moving_images = 3, a_init_rigid = Some 8, a_loss_type = ''cc'',
        a_optimizer = ''Adam'', a_optimizer_lr = 3 / 1000, a_cc_kernel_size = 5\<rparr>, 15),
      (Print (msg_running_affine ''default''), 16),
      (Affine_optimize 15, 17),
      (Affine_get_affine_matrix 15, 18),
      (Tensor_detach 18, 19),
      (Print (msg_writing_affine ''/out/sub1_0GenericAffine.mat''), 20),
      (Affine_save_as_ants_transforms 15 [''/out/sub1_0GenericAffine.mat''], 21),
      (GreedyRegistration
       \<lparr>g_scales = [4, 2, 1], g_iterations = [200, 100, 25], g_fixed_images = 2,
        g_moving_images = 3, g_cc_kernel_size = 5, g_deformation_type = ''compositive'',
        g_optimizer = ''Adam'', g_optimizer_lr = 1 / 2, g_smooth_grad_sigma = 1 / 2,
        g_init_affine = 19\<rparr>, 22),
      (Print (msg_running_deformable ''default''), 23),
      (Greedy_optimize 22, 24),
      (Greedy_evaluate 22 2 3, 25),
      (FakeBatchedImages 25 2, 26),
      (Print (msg_writing_moved ''/out/sub1_Warped.nii.gz''), 27),
      (Write_image 26 ''/out/sub1_Warped.nii.gz'', 28),
      (Print (msg_writing_forward ''/out/sub1_Def.nii.gz''), 29),
      (Greedy_save_as_ants_transforms 22 [''/out/sub1_Def.nii.gz''] False, 30),
      (Print (msg_writing_inverse ''/out/sub1_InvDef.nii.gz''), 31),
      (Greedy_save_as_ants_transforms 22 [''/out/sub1_InvDef.nii.gz''] True, 32)])"
  by (simp add: run_fireants_registration_def default_params Let_def andthen_invoke
      andthen_assoc andthen_done done_with_def lib_ok_def deform_iterations_of_def)

lemma run_lib_ok_no_moments:
  "run_fireants_registration lib_ok ascii_lower ''fixed.nii.gz'' ''moving.nii.gz''
     ''/out/sub1_'' ''default'' False [] =
   (Inr (),
     [(Image_load_file ''fixed.nii.gz'', 0),
      (Image_load_file ''moving.nii.gz'', 1),
      (BatchedImages [0], 2),
      (BatchedImages [1], 3),
      (AffineRegistration
       \<lparr>a_scales = [4, 2, 1], a_iterations = [200, 100, 50], a_fixed_images = 2,
        a_moving_images = 3, a_init_rigid = None, a_loss_type = ''cc'',
        a_optimizer = ''Adam'', a_optimizer_lr = 3 / 1000, a_cc_kernel_size = 5\<rparr>, 4),
      (Print (msg_running_affine ''default''), 5),
      (Affine_optimize 4, 6),
      (Affine_get_affine_matrix 4, 7),
      (Tensor_detach 7, 8),
      (Print (msg_writing_affine ''/out/sub1_0GenericAffine.mat''), 9),
      (Affine_save_as_ants_transforms 4 [''/out/sub1_0GenericAffine.mat''], 10),
      (GreedyRegistration
       \<lparr>g_scales = [4, 2, 1], g_iterations = [200, 100, 25], g_fixed_images = 2,
        g_moving_images = 3, g_cc_kernel_size = 5, g_deformation_type = ''compositive'',
        g_optimizer = ''Adam'', g_optimizer_lr = 1 / 2, g_smooth_grad_sigma = 1 / 2,
        g_init_affine = 8\<rparr>, 11),
      (Print (msg_running_deformable ''default''), 12),
      (Greedy_optimize 11, 13),
      (Greedy_evaluate 11 2 3, 14),
      (FakeBatchedImages 14 2, 15),
      (Print (msg_writing_moved ''/out/sub1_Warped.nii.gz''), 16),
      (Write_image 15 ''/out/sub1_Warped.nii.gz'', 17),
      (Print (msg_writing_forward ''/out/sub1_Def.nii.gz''), 18),
      (Greedy_save_as_ants_transforms 11 [''/out/sub1_Def.nii.gz''] False, 19),
      (Print (msg_writing_inverse ''/out/sub1_InvDef.nii.gz''), 20),
      (Greedy_save_as_ants_transforms 11 [''/out/sub1_InvDef.nii.gz''] True, 21)])"
  by (simp add: run_fireants_registration_def default_params Let_def andthen_invoke
      andthen_assoc andthen_done done_with_def lib_ok_def deform_iterations_of_def)

section \<open>Calls and their arguments\<close>

lemma follows_position:
  assumes "follows P evs" "ev \<in> set evs" "Q (fst ev)"
    and "list_all (\<lambda>s. \<forall>vs. \<not> Q (s vs)) (take k P)"
    and "list_all (\<lambda>s. \<forall>vs. \<not> Q (s vs)) (drop (Suc k) P)"
  shows "k < length evs \<and> evs ! k = ev"
proof -
  obtain i where i: "i < length evs" "evs ! i = ev"
    using assms(2) by (auto simp: in_set_conv_nth)
  have le: "length evs \<le> length P" using assms(1) by (simp add: follows_def)
  have q: "Q ((P ! i) (map snd (take i evs)))"
    using follows_nth [OF assms(1) i(1)] i(2) assms(3) by simp
  have "\<not> i < k"
  proof
    assume "i < k"
    then have "P ! i \<in> set (take k P)"
      using i(1) le by (metis in_set_conv_nth length_take min_less_iff_conj nth_take
          order_less_le_trans)
    then show False using assms(4) q by (auto simp: list_all_iff)
  qed
  moreover have "\<not> k < i"
  proof
    assume "k < i"
    then have "P ! i = drop (Suc k) P ! (i - Suc k)" "i - Suc k < length (drop (Suc k) P)"
      using i(1) le by auto
    then have "P ! i \<in> set (drop (Suc k) P)" by (metis nth_mem)
    then show False using assms(5) q by (auto simp: list_all_iff)
  qed
  ultimately have "i = k" by simp
  then show ?thesis using i by simp
qed

lemma follows_at:
  assumes "follows P evs" "i < length evs" "(P ! i) (map snd (take i evs)) = c"
  shows "evs ! i = (c, snd (evs ! i))"
  using follows_nth [OF assms(1,2)] assms(3) by (simp add: prod_eq_iff)

lemma follows_not_before:
  assumes "follows P evs" "ev \<in> set evs" "Q (fst ev)"
    and "list_all (\<lambda>s. \<forall>vs. \<not> Q (s vs)) (take k P)"
  shows "\<exists>i. k \<le> i \<and> i < length evs \<and> evs ! i = ev"
proof -
  obtain i where i: "i < length evs" "evs ! i = ev"
    using assms(2) by (auto simp: in_set_conv_nth)
  have le: "length evs \<le> length P" using assms(1) by (simp add: follows_def)
  have q: "Q ((P ! i) (map snd (take i evs)))"
    using follows_nth [OF assms(1) i(1)] i(2) assms(3) by simp
  have "\<not> i < k"
  proof
    assume "i < k"
    then have "P ! i \<in> set (take k P)"
      using i(1) le by (metis in_set_conv_nth length_take min_less_iff_conj nth_take
          order_less_le_trans)
    then show False using assms(4) q by (auto simp: list_all_iff)
  qed
  then have "k \<le> i" by simp
  then show ?thesis using i by blast
qed

lemma subseq_indices_drop:
  assumes "sorted_wrt (<) is" "\<forall>i\<in>set is. n \<le> i \<and> i < length xs"
  shows "subseq (map (\<lambda>i. xs ! i) is) (drop n xs)"
  using assms
proof (induction "is" arbitrary: n)
  case Nil
  show ?case by simp
next
  case (Cons i js)
  have i: "n \<le> i" "i < length xs" using Cons.prems(2) by simp_all
  have "subseq (map (\<lambda>i. xs ! i) js) (drop (Suc i) xs)"
    using Cons.prems by (intro Cons.IH) auto
  then have "subseq (xs ! i # map (\<lambda>i. xs ! i) js) (xs ! i # drop (Suc i) xs)"
    by (rule subseq_Cons2)
  then have "subseq (map (\<lambda>i. xs ! i) (i # js)) (drop i xs)"
    using i(2) by (simp add: Cons_nth_drop_Suc)
  then have "subseq (map (\<lambda>i. xs ! i) (i # js)) (take (i - n) (drop n xs) @ drop i xs)"
    by (rule list_emb_append2)
  moreover have "take (i - n) (drop n xs) @ drop i xs = drop n xs"
  proof -
    have "drop i xs = drop (i - n) (drop n xs)" using i(1) by simp
    then show ?thesis by (simp only: append_take_drop_id)
  qed
  ultimately show ?case by simp
qed

lemma subseq_indices:
  assumes "sorted_wrt (<) is" "\<forall>i\<in>set is. i < length xs"
  shows "subseq (map (\<lambda>i. xs ! i) is) xs"
  using subseq_indices_drop [OF assms(1), of 0 xs] assms(2) by simp

lemma plan_stages_plan:
  "list_all2 (\<lambda>s a. \<forall>vs. stage_of (s vs) = a) (plan lower fp mp pre prof dm) (plan_stages dm)"
  by (simp add: plan_def plan_stages_def split: prod.splits)

lemma map_filter_append:
  "List.map_filter f (xs @ ys) = List.map_filter f xs @ List.map_filter f ys"
  by (simp add: List.map_filter_def)

lemma stages_follows:
  assumes "follows (plan lower fp mp pre prof dm) evs"
  shows "stages evs = List.map_filter id (take (length evs) (plan_stages dm))"
proof -
  have "stages evs = List.map_filter id (map (\<lambda>ev. stage_of (fst ev)) evs)"
    by (simp add: stages_def List.map_filter_def filter_map comp_def)
  then show ?thesis using follows_map [OF assms plan_stages_plan] by simp
qed

lemma set_map_filter_take:
  "set (List.map_filter f (take n xs)) \<subseteq> set (List.map_filter f xs)"
  by (auto simp: List.map_filter_def dest: in_set_takeD)

lemma set_written_follows:
  assumes "follows (plan lower fp mp pre prof dm) evs"
  shows "set (written evs) \<subseteq> set (concat (plan_writes pre dm))"
  using written_follows [OF assms] by (auto dest: in_set_takeD)

text \<open>
  Claim C2. With \<^verbatim>\<open>do_moments=False\<close> the moments stage is skipped, whatever the library
  does: no method of the moments registration is called, every affine registration is
  constructed with \<^verbatim>\<open>init_rigid=None\<close> (no seed, which the library takes as the identity),
  and neither \<^verbatim>\<open>MomentsInit.mat\<close> nor \<^verbatim>\<open>MomentsWarped.nii.gz\<close> is written. A run that
  completes has constructed the affine registration.
\<close>

theorem no_moments_run:
  assumes "run_fireants_registration lib lower fixed_path moving_path out_prefix profile
             False [] = (r, evs)"
  shows "Moments \<notin> set (stages evs) \<and>
    (\<forall>args a. (AffineRegistration args, a) \<in> set evs \<longrightarrow> a_init_rigid args = None) \<and>
    out_prefix @ ''MomentsInit.mat'' \<notin> fst ` set (written evs) \<and>
    out_prefix @ ''MomentsWarped.nii.gz'' \<notin> fst ` set (written evs) \<and>
    ((\<exists>u. r = Inr u) \<longrightarrow> (\<exists>args a. (AffineRegistration args, a) \<in> set evs))"
proof -
  let ?P = "plan lower fixed_path moving_path out_prefix profile False"
  have fol: "follows ?P evs" by (rule run_follows(1) [OF assms])
  have "set (stages evs) \<subseteq> set (List.map_filter id (plan_stages False))"
    using stages_follows [OF fol] set_map_filter_take by metis
  then have 1: "Moments \<notin> set (stages evs)"
    by (auto simp: plan_stages_def List.map_filter_def)
  have "list_all (\<lambda>s. \<forall>vs. \<forall>args. s vs = AffineRegistration args \<longrightarrow> a_init_rigid args = None) ?P"
    by (simp add: plan_def split: prod.splits)
  from follows_list_all [OF fol, of "\<lambda>c. \<forall>args. c = AffineRegistration args \<longrightarrow> a_init_rigid args = None", OF this]
  have 2: "\<forall>args a. (AffineRegistration args, a) \<in> set evs \<longrightarrow> a_init_rigid args = None"
    by (auto simp: list_all_iff)
  have 3: "out_prefix @ ''MomentsInit.mat'' \<notin> fst ` set (written evs)"
    and 4: "out_prefix @ ''MomentsWarped.nii.gz'' \<notin> fst ` set (written evs)"
    using set_written_follows [OF fol] by (auto simp: plan_writes_def)
  have 5: "\<exists>args a. (AffineRegistration args, a) \<in> set evs" if "\<exists>u. r = Inr u"
  proof -
    have "4 < length evs" using run_follows(2) [OF assms] that by simp
    from follows_event [OF fol this] show ?thesis
      by (auto simp: plan_def split: prod.splits)
  qed
  show ?thesis using 1 2 3 4 5 by blast
qed

theorem no_moments_run_witness:
  "(AffineRegistration
       \<lparr>a_scales = [4, 2, 1], a_iterations = [200, 100, 50], a_fixed_images = 2,
        a_moving_images = 3, a_init_rigid = None, a_loss_type = ''cc'',
        a_optimizer = ''Adam'', a_optimizer_lr = 3 / 1000, a_cc_kernel_size = 5\<rparr>, 4)
     \<in> set (snd (run_fireants_registration lib_ok ascii_lower ''fixed.nii.gz''
          ''moving.nii.gz'' ''/out/sub1_'' ''default'' False [])) \<and>
   Moments \<notin> set (stages (snd (run_fireants_registration lib_ok ascii_lower ''fixed.nii.gz''
          ''moving.nii.gz'' ''/out/sub1_'' ''default'' False []))) \<and>
   ''/out/sub1_MomentsInit.mat'' \<notin> fst ` set (written (snd (run_fireants_registration
          lib_ok ascii_lower ''fixed.nii.gz'' ''moving.nii.gz'' ''/out/sub1_'' ''default''
          False []))) \<and>
   ''/out/sub1_MomentsWarped.nii.gz'' \<notin> fst ` set (written (snd (run_fireants_registration
          lib_ok ascii_lower ''fixed.nii.gz'' ''moving.nii.gz'' ''/out/sub1_'' ''default''
          False [])))"
proof -
  let ?run = "run_fireants_registration lib_ok ascii_lower ''fixed.nii.gz''
          ''moving.nii.gz'' ''/out/sub1_'' ''default'' False []"
  have "?run = (fst ?run, snd ?run)" by simp
  from no_moments_run [OF this] show ?thesis
    by (simp add: run_lib_ok_no_moments)
qed

text \<open>
  Claim C4, as amended. When the moments stage is enabled, the moments registration is
  constructed with the fixed scale factor 1.0, whatever the profile: the factor of the
  finest pyramid level (the last of the profile's scales), not of the coarsest (the
  first, 4). It takes no list of levels and no iteration budgets, so it does not depend
  on the per-level loop of the later stages. A run with moments that completes has made
  this call.
\<close>

theorem moments_scale_is_one:
  assumes "run_fireants_registration lib lower fixed_path moving_path out_prefix profile
             do_moments [] = (r, evs)"
  shows "(\<forall>args m. (MomentsRegistration args, m) \<in> set evs \<longrightarrow>
        m_scale args = 1 \<and>
        m_scale args = real_of_int (last (scales_of (get_profile_params lower profile))) \<and>
        m_scale args \<noteq> real_of_int (hd (scales_of (get_profile_params lower profile)))) \<and>
    (do_moments \<and> (\<exists>u. r = Inr u) \<longrightarrow> (\<exists>args m. (MomentsRegistration args, m) \<in> set evs))"
proof -
  let ?P = "plan lower fixed_path moving_path out_prefix profile do_moments"
  have fol: "follows ?P evs" by (rule run_follows(1) [OF assms])
  have "list_all (\<lambda>s. \<forall>vs. \<forall>args. s vs = MomentsRegistration args \<longrightarrow> m_scale args = 1) ?P"
    by (simp add: plan_def split: prod.splits)
  from follows_list_all [OF fol, of "\<lambda>c. \<forall>args. c = MomentsRegistration args \<longrightarrow> m_scale args = 1", OF this]
  have 1: "\<forall>args m. (MomentsRegistration args, m) \<in> set evs \<longrightarrow> m_scale args = 1"
    by (auto simp: list_all_iff)
  have 2: "last (scales_of (get_profile_params lower profile)) = 1"
    and 3: "hd (scales_of (get_profile_params lower profile)) = 4"
    using get_profile_params_cases [of lower profile] by (auto simp: scales_of_def)
  have 4: "\<exists>args m. (MomentsRegistration args, m) \<in> set evs"
    if "do_moments" "\<exists>u. r = Inr u"
  proof -
    have "4 < length evs" using run_follows(2) [OF assms] that by simp
    from follows_event [OF fol this] that(1) show ?thesis
      by (auto simp: plan_def split: prod.splits)
  qed
  show ?thesis using 1 2 3 4 by simp
qed

theorem moments_scale_is_one_witness:
  "(MomentsRegistration
       \<lparr>m_scale = 1, m_fixed_images = 2, m_moving_images = 3, m_moments = 2,
        m_orientation = ''rot'', m_blur = False, m_loss_type = ''fusedcc'',
        m_cc_kernel_type = ''rectangular'', m_cc_kernel_size = 5\<rparr>, 4)
     \<in> set (snd (run_fireants_registration lib_ok ascii_lower ''fixed.nii.gz''
          ''moving.nii.gz'' ''/out/sub1_'' ''default'' True [])) \<and>
   fst (run_fireants_registration lib_ok ascii_lower ''fixed.nii.gz''
          ''moving.nii.gz'' ''/out/sub1_'' ''default'' True []) = Inr () \<and>
   real_of_int (last (scales_of (get_profile_params ascii_lower ''default''))) = 1 \<and>
   real_of_int (hd (scales_of (get_profile_params ascii_lower ''default''))) \<noteq> 1"
proof -
  let ?run = "run_fireants_registration lib_ok ascii_lower ''fixed.nii.gz''
          ''moving.nii.gz'' ''/out/sub1_'' ''default'' True []"
  have "?run = (fst ?run, snd ?run)" by simp
  from moments_scale_is_one [OF this] show ?thesis
    by (simp add: run_lib_ok_moments)
qed

text \<open>
  Claim C4 as stated fails: in a run of the default profile with moments, the moments
  registration is constructed with scale 1, while the coarsest level of the profile's
  pyramid has the factor 4.
\<close>

theorem moments_not_at_coarsest_level:
  "(MomentsRegistration
       \<lparr>m_scale = 1, m_fixed_images = 2, m_moving_images = 3, m_moments = 2,
        m_orientation = ''rot'', m_blur = False, m_loss_type = ''fusedcc'',
        m_cc_kernel_type = ''rectangular'', m_cc_kernel_size = 5\<rparr>, 4)
     \<in> set (snd (run_fireants_registration lib_ok ascii_lower ''fixed.nii.gz''
          ''moving.nii.gz'' ''/out/sub1_'' ''default'' True [])) \<and>
   hd (scales_of (get_profile_params ascii_lower ''default'')) = 4 \<and>
   m_scale \<lparr>m_scale = 1, m_fixed_images = 2 :: nat, m_moving_images = 3, m_moments = 2,
        m_orientation = ''rot'', m_blur = False, m_loss_type = ''fusedcc'',
        m_cc_kernel_type = ''rectangular'', m_cc_kernel_size = 5\<rparr>
     \<noteq> real_of_int (hd (scales_of (get_profile_params ascii_lower ''default'')))"
  by (simp add: run_lib_ok_moments default_params scales_of_def)

section \<open>The iteration budgets of the affine and the deformable stage\<close>

text \<open>
  Claim C3. In every run the affine registration is constructed with the profile's
  iteration budgets and the greedy (deformable) registration with the same budgets,
  level by level, except possibly the last: the list keeps its length and all entries
  but the last; the last entry is 25 when the affine list has at least three levels and
  its last budget exceeds 25, and is carried over otherwise. A greedy registration is
  only constructed after an affine one, and a run that completes has constructed both.
  The rule of the cap holds for every budget list, also one with fewer than three
  levels. In the default profile the affine stage gets (200, 100, 50) and the deformable
  stage (200, 100, 25): its last budget, 25, is below the affine stage's 50.
\<close>

theorem deform_budget_cap:
  assumes "run_fireants_registration lib lower fixed_path moving_path out_prefix profile
             do_moments [] = (r, evs)"
  shows "(\<forall>aargs a. (AffineRegistration aargs, a) \<in> set evs \<longrightarrow>
        a_iterations aargs = iterations_of (get_profile_params lower profile)) \<and>
    (\<forall>gargs g. (GreedyRegistration gargs, g) \<in> set evs \<longrightarrow>
        g_iterations gargs =
          deform_iterations_of (iterations_of (get_profile_params lower profile)) \<and>
        (\<exists>aargs a. (AffineRegistration aargs, a) \<in> set evs)) \<and>
    (\<forall>aargs a gargs g.
        (AffineRegistration aargs, a) \<in> set evs \<and> (GreedyRegistration gargs, g) \<in> set evs
        \<longrightarrow>
        length (g_iterations gargs) = length (a_iterations aargs) \<and>
        butlast (g_iterations gargs) = butlast (a_iterations aargs) \<and>
        last (g_iterations gargs) =
          (if 3 \<le> length (a_iterations aargs) \<and> 25 < last (a_iterations aargs)
           then 25 else last (a_iterations aargs))) \<and>
    ((\<exists>u. r = Inr u) \<longrightarrow> (\<exists>gargs g. (GreedyRegistration gargs, g) \<in> set evs)) \<and>
    (length (deform_iterations_of its) = length its \<and>
     butlast (deform_iterations_of its) = butlast its \<and>
     last (deform_iterations_of its) =
       (if 3 \<le> length its \<and> 25 < last its then 25 else last its)) \<and>
    (lower profile \<noteq> ''test'' \<and> lower profile \<noteq> ''quick'' \<and> lower profile \<noteq> ''balanced'' \<longrightarrow>
       (\<forall>aargs a. (AffineRegistration aargs, a) \<in> set evs \<longrightarrow>
          a_iterations aargs = [200, 100, 50]) \<and>
       (\<forall>gargs g. (GreedyRegistration gargs, g) \<in> set evs \<longrightarrow>
          g_iterations gargs = [200, 100, 25]))"
proof -
  let ?P = "plan lower fixed_path moving_path out_prefix profile do_moments"
  let ?k = "if do_moments then 15 else 4 :: nat"
  let ?its = "iterations_of (get_profile_params lower profile)"
  obtain scales its0 alr dlr
    where gp: "get_profile_params lower profile = (scales, its0, alr, dlr)"
    by (cases "get_profile_params lower profile")
  have fol: "follows ?P evs" by (rule run_follows(1) [OF assms])
  have "list_all (\<lambda>s. \<forall>vs. \<forall>args. s vs = AffineRegistration args \<longrightarrow> a_iterations args = its0) ?P"
    by (simp add: plan_def gp)
  from follows_list_all [OF fol, of "\<lambda>c. \<forall>args. c = AffineRegistration args \<longrightarrow> a_iterations args = its0", OF this]
  have 1: "\<forall>aargs a. (AffineRegistration aargs, a) \<in> set evs \<longrightarrow> a_iterations aargs = ?its"
    by (auto simp: list_all_iff gp iterations_of_def)
  have "list_all (\<lambda>s. \<forall>vs. \<forall>args. s vs = GreedyRegistration args \<longrightarrow>
          g_iterations args = deform_iterations_of its0) ?P"
    by (simp add: plan_def gp)
  from follows_list_all [OF fol, of "\<lambda>c. \<forall>args. c = GreedyRegistration args \<longrightarrow>
          g_iterations args = deform_iterations_of its0", OF this]
  have 2: "\<forall>gargs g. (GreedyRegistration gargs, g) \<in> set evs \<longrightarrow>
        g_iterations gargs = deform_iterations_of ?its"
    by (auto simp: list_all_iff gp iterations_of_def)
  have 3: "\<exists>aargs a. (AffineRegistration aargs, a) \<in> set evs"
    if mem: "(GreedyRegistration gargs, g) \<in> set evs" for gargs g
  proof -
    have "?k + 7 < length evs \<and> evs ! (?k + 7) = (GreedyRegistration gargs, g)"
      by (rule follows_position [OF fol mem, of "\<lambda>c. \<exists>args. c = GreedyRegistration args"])
        (simp_all add: plan_def gp)
    then have "?k < length evs" by simp
    from follows_event [OF fol this] show ?thesis
      by (auto simp: plan_def gp split: if_splits)
  qed
  have 4: "\<exists>gargs g. (GreedyRegistration gargs, g) \<in> set evs" if "\<exists>u. r = Inr u"
  proof -
    have "?k + 7 < length evs" using run_follows(2) [OF assms] that by simp
    from follows_event [OF fol this] show ?thesis
      by (auto simp: plan_def gp split: if_splits)
  qed
  have 5: "length (g_iterations gargs) = length (a_iterations aargs) \<and>
        butlast (g_iterations gargs) = butlast (a_iterations aargs) \<and>
        last (g_iterations gargs) =
          (if 3 \<le> length (a_iterations aargs) \<and> 25 < last (a_iterations aargs)
           then 25 else last (a_iterations aargs))"
    if "(AffineRegistration aargs, a) \<in> set evs" "(GreedyRegistration gargs, g) \<in> set evs"
    for aargs a gargs g
  proof -
    have "a_iterations aargs = ?its" "g_iterations gargs = deform_iterations_of ?its"
      using 1 2 that by blast+
    then show ?thesis using deform_iterations_of_shape [of ?its] by simp
  qed
  have 6: "?its = [200, 100, 50] \<and> deform_iterations_of ?its = [200, 100, 25]"
    if "lower profile \<noteq> ''test'' \<and> lower profile \<noteq> ''quick'' \<and> lower profile \<noteq> ''balanced''"
    using that
    by (simp add: get_profile_params_def iterations_of_def deform_iterations_of_def Let_def)
  have 7: "length (deform_iterations_of its) = length its \<and>
     butlast (deform_iterations_of its) = butlast its \<and>
     last (deform_iterations_of its) =
       (if 3 \<le> length its \<and> 25 < last its then 25 else last its)"
    by (rule deform_iterations_of_shape)
  have 8: "(\<forall>aargs a. (AffineRegistration aargs, a) \<in> set evs \<longrightarrow>
          a_iterations aargs = [200, 100, 50]) \<and>
       (\<forall>gargs g. (GreedyRegistration gargs, g) \<in> set evs \<longrightarrow>
          g_iterations gargs = [200, 100, 25])"
    if "lower profile \<noteq> ''test'' \<and> lower profile \<noteq> ''quick'' \<and> lower profile \<noteq> ''balanced''"
    using 1 2 6 [OF that] by metis
  show ?thesis
    apply (intro conjI)
    subgoal using 1 by blast
    subgoal using 2 3 by blast
    subgoal using 5 by blast
    subgoal using 4 by blast
    subgoal using 7 by blast
    subgoal using 7 by blast
    subgoal using 7 by blast
    subgoal using 8 by blast
    done
qed

theorem deform_budget_cap_witness:
  "fst (run_fireants_registration lib_ok ascii_lower ''fixed.nii.gz''
          ''moving.nii.gz'' ''/out/sub1_'' ''default'' True []) = Inr () \<and>
   (AffineRegistration
       \<lparr>a_scales = [4, 2, 1], a_iterations = [200, 100, 50], a_fixed_images = 2,
        a_moving_images = 3, a_init_rigid = Some 8, a_loss_type = ''cc'',
        a_optimizer = ''Adam'', a_optimizer_lr = 3 / 1000, a_cc_kernel_size = 5\<rparr>, 15)
     \<in> set (snd (run_fireants_registration lib_ok ascii_lower ''fixed.nii.gz''
          ''moving.nii.gz'' ''/out/sub1_'' ''default'' True [])) \<and>
   (GreedyRegistration
       \<lparr>g_scales = [4, 2, 1], g_iterations = [200, 100, 25], g_fixed_images = 2,
        g_moving_images = 3, g_cc_kernel_size = 5, g_deformation_type = ''compositive'',
        g_optimizer = ''Adam'', g_optimizer_lr = 1 / 2, g_smooth_grad_sigma = 1 / 2,
        g_init_affine = 19\<rparr>, 22)
     \<in> set (snd (run_fireants_registration lib_ok ascii_lower ''fixed.nii.gz''
          ''moving.nii.gz'' ''/out/sub1_'' ''default'' True [])) \<and>
   ascii_lower ''default'' \<noteq> ''test'' \<and> ascii_lower ''default'' \<noteq> ''quick'' \<and>
   ascii_lower ''default'' \<noteq> ''balanced'' \<and>
   iterations_of (get_profile_params ascii_lower ''default'') = [200, 100, 50] \<and>
   deform_iterations_of (iterations_of (get_profile_params ascii_lower ''default'')) =
     [200, 100, 25] \<and>
   deform_iterations_of [50, 50, 25] = [50, 50, 25] \<and>
   deform_iterations_of [100, 50] = [100, 50] \<and>
   last (deform_iterations_of [7, 30, 40, 60]) = 25 \<and>
   butlast (deform_iterations_of [7, 30, 40, 60]) = [7, 30, 40]"
proof -
  let ?run = "run_fireants_registration lib_ok ascii_lower ''fixed.nii.gz''
          ''moving.nii.gz'' ''/out/sub1_'' ''default'' True []"
  have "?run = (fst ?run, snd ?run)" by simp
  from deform_budget_cap [OF this, of "[7, 30, 40, 60]"] show ?thesis
    by (simp add: run_lib_ok_moments ascii_lower_default default_params iterations_of_def
        deform_iterations_of_def)
qed

section \<open>The order of the stages and their seeds\<close>

lemma length_plan_stages: "length (plan_stages dm) = (if dm then 33 else 22)"
  by (simp add: plan_stages_def)

text \<open>
  Claim C6, as amended. A run goes through the moments (when enabled), the affine and
  the deformable stage strictly one after the other, and each stage is seeded with the
  result of the one before it, read after that stage's optimisation has returned.

  \<^item> The calls on the three registrations come in blocks: the stage calls of every log are
    an initial segment of five moments calls, four affine calls and five deformable
    calls, and the whole of it exactly when the run completes.
  \<^item> With moments enabled, an affine registration is constructed only after, in this
    order: the moments registration was constructed and optimised, its
    \<^verbatim>\<open>get_affine_init\<close> was read and detached, its transform was saved to
    \<^verbatim>\<open>MomentsInit.mat\<close>, and its warped image was written to \<^verbatim>\<open>MomentsWarped.nii.gz\<close>;
    the detached tensor is the affine registration's \<^verbatim>\<open>init_rigid\<close>.
  \<^item> A greedy registration is constructed only after, in this order: the affine
    registration was constructed and optimised, its \<^verbatim>\<open>get_affine_matrix\<close> was read and
    detached, and its transform was saved to \<^verbatim>\<open>0GenericAffine.mat\<close>; the detached
    tensor is the greedy registration's \<^verbatim>\<open>init_affine\<close>.
  \<^item> Export is not one last stage: the files of the moments and of the affine stage are
    written before the next stage begins (the two items above). Only the three final
    files come last: a call that writes \<^verbatim>\<open>Warped.nii.gz\<close>, \<^verbatim>\<open>Def.nii.gz\<close> or
    \<^verbatim>\<open>InvDef.nii.gz\<close> is made only after the greedy registration was constructed and
    optimised.
  \<^item> A run that completes has constructed and optimised the greedy registration,
    evaluated it, and written the three final files, in this order.
\<close>

theorem stages_in_order_and_seeded:
  assumes "run_fireants_registration lib lower fixed_path moving_path out_prefix profile
             do_moments [] = (r, evs)"
  shows "(\<exists>later.
        (if do_moments then [Moments, Moments, Moments, Moments, Moments] else []) @
        [Affine, Affine, Affine, Affine,
         Deformable, Deformable, Deformable, Deformable, Deformable] =
          stages evs @ later \<and>
        ((\<exists>u. r = Inr u) = (later = []))) \<and>
    (do_moments \<longrightarrow> (\<forall>args a. (AffineRegistration args, a) \<in> set evs \<longrightarrow>
        (\<exists>margs m x t seed y fx mv moved b z.
           subseq
             [(MomentsRegistration margs, m),
              (Moments_optimize m, x),
              (Moments_get_affine_init m, t),
              (Tensor_detach t, seed),
              (Moments_save_as_ants_transforms m (out_prefix @ ''MomentsInit.mat''), y),
              (Moments_evaluate m fx mv, moved),
              (FakeBatchedImages moved fx, b),
              (Write_image b (out_prefix @ ''MomentsWarped.nii.gz''), z),
              (AffineRegistration args, a)] evs \<and>
           a_init_rigid args = Some seed))) \<and>
    (\<forall>args g. (GreedyRegistration args, g) \<in> set evs \<longrightarrow>
        (\<exists>aargs a x t y.
           subseq
             [(AffineRegistration aargs, a),
              (Affine_optimize a, x),
              (Affine_get_affine_matrix a, t),
              (Tensor_detach t, g_init_affine args),
              (Affine_save_as_ants_transforms a [out_prefix @ ''0GenericAffine.mat''], y),
              (GreedyRegistration args, g)] evs)) \<and>
    (\<forall>c v. (c, v) \<in> set evs \<and>
        fst ` set (writes c) \<inter>
          {out_prefix @ ''Warped.nii.gz'', out_prefix @ ''Def.nii.gz'',
           out_prefix @ ''InvDef.nii.gz''} \<noteq> {} \<longrightarrow>
        (\<exists>args g x.
           subseq [(GreedyRegistration args, g), (Greedy_optimize g, x), (c, v)] evs)) \<and>
    ((\<exists>u. r = Inr u) \<longrightarrow>
        (\<exists>args g x fx mv moved b y1 y2 y3.
           subseq
             [(GreedyRegistration args, g),
              (Greedy_optimize g, x),
              (Greedy_evaluate g fx mv, moved),
              (FakeBatchedImages moved fx, b),
              (Write_image b (out_prefix @ ''Warped.nii.gz''), y1),
              (Greedy_save_as_ants_transforms g [out_prefix @ ''Def.nii.gz''] False, y2),
              (Greedy_save_as_ants_transforms g [out_prefix @ ''InvDef.nii.gz''] True, y3)]
             evs))"
proof -
  let ?P = "plan lower fixed_path moving_path out_prefix profile do_moments"
  let ?k = "if do_moments then 15 else 4 :: nat"
  let ?S = "plan_stages do_moments"
  obtain scales its alr dlr
    where gp: "get_profile_params lower profile = (scales, its, alr, dlr)"
    by (cases "get_profile_params lower profile")
  define val where "val = (\<lambda>i. snd (evs ! i))"
  have fol: "follows ?P evs" by (rule run_follows(1) [OF assms])
  have len: "length evs \<le> length ?S"
    using fol by (simp add: follows_def length_plan length_plan_stages)
  have 1: "\<exists>later.
        (if do_moments then [Moments, Moments, Moments, Moments, Moments] else []) @
        [Affine, Affine, Affine, Affine,
         Deformable, Deformable, Deformable, Deformable, Deformable] =
          stages evs @ later \<and>
        ((\<exists>u. r = Inr u) = (later = []))"
  proof -
    have all: "List.map_filter id ?S =
        (if do_moments then [Moments, Moments, Moments, Moments, Moments] else []) @
        [Affine, Affine, Affine, Affine,
         Deformable, Deformable, Deformable, Deformable, Deformable]"
      by (simp add: plan_stages_def List.map_filter_def)
    have "List.map_filter id ?S =
        List.map_filter id (take (length evs) ?S) @ List.map_filter id (drop (length evs) ?S)"
      by (metis append_take_drop_id map_filter_append)
    then have split: "List.map_filter id ?S =
        stages evs @ List.map_filter id (drop (length evs) ?S)"
      using stages_follows [OF fol] by simp
    have "(List.map_filter id (drop (length evs) ?S) = []) = (length evs = length ?S)"
    proof
      assume "length evs = length ?S"
      then show "List.map_filter id (drop (length evs) ?S) = []"
        by (simp add: List.map_filter_def)
    next
      assume e: "List.map_filter id (drop (length evs) ?S) = []"
      show "length evs = length ?S"
      proof (rule ccontr)
        assume "length evs \<noteq> length ?S"
        then have lt: "length evs < length ?S" using len by simp
        then have "drop (length evs) ?S \<noteq> []" by simp
        then have "last (drop (length evs) ?S) \<in> set (drop (length evs) ?S)"
          by (rule last_in_set)
        moreover have "last (drop (length evs) ?S) = Some Deformable"
          using lt by (simp add: plan_stages_def)
        ultimately have "Deformable \<in> set (List.map_filter id (drop (length evs) ?S))"
          by (force simp: List.map_filter_def)
        then show False using e by simp
      qed
    qed
    moreover have "(\<exists>u. r = Inr u) = (length evs = length ?S)"
      using run_follows(2) [OF assms] by (simp add: length_plan_stages)
    ultimately show ?thesis using split all by (metis (no_types, lifting))
  qed
  have 2: "\<exists>margs m x t seed y fx mv moved b z.
           subseq
             [(MomentsRegistration margs, m),
              (Moments_optimize m, x),
              (Moments_get_affine_init m, t),
              (Tensor_detach t, seed),
              (Moments_save_as_ants_transforms m (out_prefix @ ''MomentsInit.mat''), y),
              (Moments_evaluate m fx mv, moved),
              (FakeBatchedImages moved fx, b),
              (Write_image b (out_prefix @ ''MomentsWarped.nii.gz''), z),
              (AffineRegistration args, a)] evs \<and>
           a_init_rigid args = Some seed"
    if dm: "do_moments" and mem: "(AffineRegistration args, a) \<in> set evs" for args a
  proof -
    have "15 < length evs \<and> evs ! 15 = (AffineRegistration args, a)"
      by (rule follows_position [OF fol mem, of "\<lambda>c. \<exists>args. c = AffineRegistration args"])
        (simp_all add: plan_def gp dm)
    then have n: "15 < length evs" and e15: "evs ! 15 = (AffineRegistration args, a)"
      by simp_all
    have seed: "a_init_rigid args = Some (val 8)"
      using follows_nth [OF fol n] e15 n by (auto simp: plan_def gp dm nth_values val_def)
    have e4: "evs ! 4 = (MomentsRegistration
           \<lparr>m_scale = 1, m_fixed_images = val 2, m_moving_images = val 3,
            m_moments = 2, m_orientation = ''rot'', m_blur = False,
            m_loss_type = ''fusedcc'', m_cc_kernel_type = ''rectangular'',
            m_cc_kernel_size = 5\<rparr>, val 4)"
      unfolding val_def
      by (rule follows_at [OF fol]) (use n in \<open>simp_all add: plan_def gp dm nth_values\<close>)
    have e6: "evs ! 6 = (Moments_optimize (val 4), val 6)"
      unfolding val_def
      by (rule follows_at [OF fol]) (use n in \<open>simp_all add: plan_def gp dm nth_values\<close>)
    have e7: "evs ! 7 = (Moments_get_affine_init (val 4), val 7)"
      unfolding val_def
      by (rule follows_at [OF fol]) (use n in \<open>simp_all add: plan_def gp dm nth_values\<close>)
    have e8: "evs ! 8 = (Tensor_detach (val 7), val 8)"
      unfolding val_def
      by (rule follows_at [OF fol]) (use n in \<open>simp_all add: plan_def gp dm nth_values\<close>)
    have e10: "evs ! 10 =
        (Moments_save_as_ants_transforms (val 4) (out_prefix @ ''MomentsInit.mat''), val 10)"
      unfolding val_def
      by (rule follows_at [OF fol]) (use n in \<open>simp_all add: plan_def gp dm nth_values\<close>)
    have e11: "evs ! 11 = (Moments_evaluate (val 4) (val 2) (val 3), val 11)"
      unfolding val_def
      by (rule follows_at [OF fol]) (use n in \<open>simp_all add: plan_def gp dm nth_values\<close>)
    have e12: "evs ! 12 = (FakeBatchedImages (val 11) (val 2), val 12)"
      unfolding val_def
      by (rule follows_at [OF fol]) (use n in \<open>simp_all add: plan_def gp dm nth_values\<close>)
    have e14: "evs ! 14 =
        (Write_image (val 12) (out_prefix @ ''MomentsWarped.nii.gz''), val 14)"
      unfolding val_def
      by (rule follows_at [OF fol]) (use n in \<open>simp_all add: plan_def gp dm nth_values\<close>)
    have "subseq (map (\<lambda>i. evs ! i) [4, 6, 7, 8, 10, 11, 12, 14, 15]) evs"
      by (rule subseq_indices) (use n in simp_all)
    then have "subseq
             [(MomentsRegistration
                \<lparr>m_scale = 1, m_fixed_images = val 2, m_moving_images = val 3,
                 m_moments = 2, m_orientation = ''rot'', m_blur = False,
                 m_loss_type = ''fusedcc'', m_cc_kernel_type = ''rectangular'',
                 m_cc_kernel_size = 5\<rparr>, val 4),
              (Moments_optimize (val 4), val 6),
              (Moments_get_affine_init (val 4), val 7),
              (Tensor_detach (val 7), val 8),
              (Moments_save_as_ants_transforms (val 4) (out_prefix @ ''MomentsInit.mat''),
               val 10),
              (Moments_evaluate (val 4) (val 2) (val 3), val 11),
              (FakeBatchedImages (val 11) (val 2), val 12),
              (Write_image (val 12) (out_prefix @ ''MomentsWarped.nii.gz''), val 14),
              (AffineRegistration args, a)] evs"
      by (simp only: list.map e4 e6 e7 e8 e10 e11 e12 e14 e15)
    then show ?thesis using seed by blast
  qed
  have 3: "\<exists>aargs a x t y.
           subseq
             [(AffineRegistration aargs, a),
              (Affine_optimize a, x),
              (Affine_get_affine_matrix a, t),
              (Tensor_detach t, g_init_affine args),
              (Affine_save_as_ants_transforms a [out_prefix @ ''0GenericAffine.mat''], y),
              (GreedyRegistration args, g)] evs"
    if mem: "(GreedyRegistration args, g) \<in> set evs" for args g
  proof -
    have "?k + 7 < length evs \<and> evs ! (?k + 7) = (GreedyRegistration args, g)"
      by (rule follows_position [OF fol mem, of "\<lambda>c. \<exists>args. c = GreedyRegistration args"])
        (simp_all add: plan_def gp)
    then have n: "?k + 7 < length evs" and e7: "evs ! (?k + 7) = (GreedyRegistration args, g)"
      by simp_all
    have seed: "g_init_affine args = val (?k + 4)"
      using follows_nth [OF fol n] e7 n
      by (auto simp: plan_def gp nth_values val_def split: if_splits)
    have "\<exists>aargs. fst (evs ! ?k) = AffineRegistration aargs"
      using follows_nth [OF fol, of ?k] n by (auto simp: plan_def gp split: if_splits)
    then obtain aargs where "fst (evs ! ?k) = AffineRegistration aargs" by blast
    then have e0: "evs ! ?k = (AffineRegistration aargs, val ?k)"
      by (simp add: prod_eq_iff val_def)
    have e2: "evs ! (?k + 2) = (Affine_optimize (val ?k), val (?k + 2))"
      unfolding val_def
      by (rule follows_at [OF fol])
        (use n in \<open>auto simp: plan_def gp nth_values split: if_splits\<close>)
    have e3: "evs ! (?k + 3) = (Affine_get_affine_matrix (val ?k), val (?k + 3))"
      unfolding val_def
      by (rule follows_at [OF fol])
        (use n in \<open>auto simp: plan_def gp nth_values split: if_splits\<close>)
    have e4: "evs ! (?k + 4) = (Tensor_detach (val (?k + 3)), val (?k + 4))"
      unfolding val_def
      by (rule follows_at [OF fol])
        (use n in \<open>auto simp: plan_def gp nth_values split: if_splits\<close>)
    have e6: "evs ! (?k + 6) =
        (Affine_save_as_ants_transforms (val ?k) [out_prefix @ ''0GenericAffine.mat''],
         val (?k + 6))"
      unfolding val_def
      by (rule follows_at [OF fol])
        (use n in \<open>auto simp: plan_def gp nth_values split: if_splits\<close>)
    have "subseq (map (\<lambda>i. evs ! i) [?k, ?k + 2, ?k + 3, ?k + 4, ?k + 6, ?k + 7]) evs"
      by (rule subseq_indices) (use n in simp_all)
    then have "subseq
             [(AffineRegistration aargs, val ?k),
              (Affine_optimize (val ?k), val (?k + 2)),
              (Affine_get_affine_matrix (val ?k), val (?k + 3)),
              (Tensor_detach (val (?k + 3)), g_init_affine args),
              (Affine_save_as_ants_transforms (val ?k) [out_prefix @ ''0GenericAffine.mat''],
               val (?k + 6)),
              (GreedyRegistration args, g)] evs"
      by (simp only: list.map e0 e2 e3 e4 e6 e7 seed)
    then show ?thesis by blast
  qed
  have e_greedy: "\<exists>args. evs ! (?k + 7) = (GreedyRegistration args, val (?k + 7))"
    if n: "?k + 7 < length evs"
  proof -
    have "\<exists>args. fst (evs ! (?k + 7)) = GreedyRegistration args"
      using follows_nth [OF fol n] by (auto simp: plan_def gp split: if_splits)
    then show ?thesis by (auto simp: prod_eq_iff val_def)
  qed
  have e_opt: "evs ! (?k + 9) = (Greedy_optimize (val (?k + 7)), val (?k + 9))"
    if n: "?k + 9 < length evs"
    unfolding val_def
    by (rule follows_at [OF fol])
      (use n in \<open>auto simp: plan_def gp nth_values split: if_splits\<close>)
  have 4: "\<exists>args g x.
           subseq [(GreedyRegistration args, g), (Greedy_optimize g, x), (c, v)] evs"
    if mem: "(c, v) \<in> set evs"
      and w: "fst ` set (writes c) \<inter>
          {out_prefix @ ''Warped.nii.gz'', out_prefix @ ''Def.nii.gz'',
           out_prefix @ ''InvDef.nii.gz''} \<noteq> {}" for c v
  proof -
    let ?Q = "\<lambda>c. fst ` set (writes c) \<inter>
          {out_prefix @ ''Warped.nii.gz'', out_prefix @ ''Def.nii.gz'',
           out_prefix @ ''InvDef.nii.gz''} \<noteq> {}"
    have "list_all (\<lambda>s. \<forall>vs. \<not> ?Q (s vs)) (take (?k + 10) ?P)"
      by (simp add: plan_def gp)
    from follows_not_before [OF fol mem, of ?Q, OF _ this] w
    obtain i where i: "?k + 10 \<le> i" "i < length evs" "evs ! i = (c, v)" by auto
    have n7: "?k + 7 < length evs" and n9: "?k + 9 < length evs" using i by simp_all
    obtain args where e7: "evs ! (?k + 7) = (GreedyRegistration args, val (?k + 7))"
      using e_greedy [OF n7] by blast
    have "subseq (map (\<lambda>i. evs ! i) [?k + 7, ?k + 9, i]) evs"
      by (rule subseq_indices) (use i in simp_all)
    then have "subseq [(GreedyRegistration args, val (?k + 7)),
        (Greedy_optimize (val (?k + 7)), val (?k + 9)), (c, v)] evs"
      by (simp only: list.map e7 e_opt [OF n9] i(3))
    then show ?thesis by blast
  qed
  have 5: "\<exists>args g x fx mv moved b y1 y2 y3.
           subseq
             [(GreedyRegistration args, g),
              (Greedy_optimize g, x),
              (Greedy_evaluate g fx mv, moved),
              (FakeBatchedImages moved fx, b),
              (Write_image b (out_prefix @ ''Warped.nii.gz''), y1),
              (Greedy_save_as_ants_transforms g [out_prefix @ ''Def.nii.gz''] False, y2),
              (Greedy_save_as_ants_transforms g [out_prefix @ ''InvDef.nii.gz''] True, y3)]
             evs"
    if ok: "\<exists>u. r = Inr u"
  proof -
    have n: "length evs = ?k + 18" using run_follows(2) [OF assms] ok by simp
    have n7: "?k + 7 < length evs" and n9: "?k + 9 < length evs" using n by simp_all
    obtain args where e7: "evs ! (?k + 7) = (GreedyRegistration args, val (?k + 7))"
      using e_greedy [OF n7] by blast
    have e10: "evs ! (?k + 10) =
        (Greedy_evaluate (val (?k + 7)) (val 2) (val 3), val (?k + 10))"
      unfolding val_def
      by (rule follows_at [OF fol])
        (use n in \<open>auto simp: plan_def gp nth_values split: if_splits\<close>)
    have e11: "evs ! (?k + 11) = (FakeBatchedImages (val (?k + 10)) (val 2), val (?k + 11))"
      unfolding val_def
      by (rule follows_at [OF fol])
        (use n in \<open>auto simp: plan_def gp nth_values split: if_splits\<close>)
    have e13: "evs ! (?k + 13) =
        (Write_image (val (?k + 11)) (out_prefix @ ''Warped.nii.gz''), val (?k + 13))"
      unfolding val_def
      by (rule follows_at [OF fol])
        (use n in \<open>auto simp: plan_def gp nth_values split: if_splits\<close>)
    have e15: "evs ! (?k + 15) =
        (Greedy_save_as_ants_transforms (val (?k + 7)) [out_prefix @ ''Def.nii.gz''] False,
         val (?k + 15))"
      unfolding val_def
      by (rule follows_at [OF fol])
        (use n in \<open>auto simp: plan_def gp nth_values split: if_splits\<close>)
    have e17: "evs ! (?k + 17) =
        (Greedy_save_as_ants_transforms (val (?k + 7)) [out_prefix @ ''InvDef.nii.gz''] True,
         val (?k + 17))"
      unfolding val_def
      by (rule follows_at [OF fol])
        (use n in \<open>auto simp: plan_def gp nth_values split: if_splits\<close>)
    have "subseq (map (\<lambda>i. evs ! i)
        [?k + 7, ?k + 9, ?k + 10, ?k + 11, ?k + 13, ?k + 15, ?k + 17]) evs"
      by (rule subseq_indices) (use n in simp_all)
    then have "subseq
             [(GreedyRegistration args, val (?k + 7)),
              (Greedy_optimize (val (?k + 7)), val (?k + 9)),
              (Greedy_evaluate (val (?k + 7)) (val 2) (val 3), val (?k + 10)),
              (FakeBatchedImages (val (?k + 10)) (val 2), val (?k + 11)),
              (Write_image (val (?k + 11)) (out_prefix @ ''Warped.nii.gz''), val (?k + 13)),
              (Greedy_save_as_ants_transforms (val (?k + 7)) [out_prefix @ ''Def.nii.gz'']
                 False, val (?k + 15)),
              (Greedy_save_as_ants_transforms (val (?k + 7)) [out_prefix @ ''InvDef.nii.gz'']
                 True, val (?k + 17))] evs"
      by (simp only: list.map e7 e_opt [OF n9] e10 e11 e13 e15 e17)
    then show ?thesis by blast
  qed
  show ?thesis
    apply (intro conjI)
    subgoal using 1 by blast
    subgoal using 2 by blast
    subgoal using 3 by blast
    subgoal using 4 by blast
    subgoal using 5 by blast
    done
qed

theorem stages_in_order_and_seeded_witness:
  "fst (run_fireants_registration lib_ok ascii_lower ''fixed.nii.gz''
          ''moving.nii.gz'' ''/out/sub1_'' ''default'' True []) = Inr () \<and>
   stages (snd (run_fireants_registration lib_ok ascii_lower ''fixed.nii.gz''
          ''moving.nii.gz'' ''/out/sub1_'' ''default'' True [])) =
     [Moments, Moments, Moments, Moments, Moments, Affine, Affine, Affine, Affine,
      Deformable, Deformable, Deformable, Deformable, Deformable] \<and>
   (AffineRegistration
       \<lparr>a_scales = [4, 2, 1], a_iterations = [200, 100, 50], a_fixed_images = 2,
        a_moving_images = 3, a_init_rigid = Some 8, a_loss_type = ''cc'',
        a_optimizer = ''Adam'', a_optimizer_lr = 3 / 1000, a_cc_kernel_size = 5\<rparr>, 15)
     \<in> set (snd (run_fireants_registration lib_ok ascii_lower ''fixed.nii.gz''
          ''moving.nii.gz'' ''/out/sub1_'' ''default'' True [])) \<and>
   (GreedyRegistration
       \<lparr>g_scales = [4, 2, 1], g_iterations = [200, 100, 25], g_fixed_images = 2,
        g_moving_images = 3, g_cc_kernel_size = 5, g_deformation_type = ''compositive'',
        g_optimizer = ''Adam'', g_optimizer_lr = 1 / 2, g_smooth_grad_sigma = 1 / 2,
        g_init_affine = 19\<rparr>, 22)
     \<in> set (snd (run_fireants_registration lib_ok ascii_lower ''fixed.nii.gz''
          ''moving.nii.gz'' ''/out/sub1_'' ''default'' True [])) \<and>
   subseq
     [(MomentsRegistration
       \<lparr>m_scale = 1, m_fixed_images = 2, m_moving_images = 3, m_moments = 2,
        m_orientation = ''rot'', m_blur = False, m_loss_type = ''fusedcc'',
        m_cc_kernel_type = ''rectangular'', m_cc_kernel_size = 5\<rparr>, 4),
      (Moments_optimize 4, 6),
      (Moments_get_affine_init 4, 7),
      (Tensor_detach 7, 8),
      (Moments_save_as_ants_transforms 4 ''/out/sub1_MomentsInit.mat'', 10),
      (Moments_evaluate 4 2 3, 11),
      (FakeBatchedImages 11 2, 12),
      (Write_image 12 ''/out/sub1_MomentsWarped.nii.gz'', 14),
      (AffineRegistration
       \<lparr>a_scales = [4, 2, 1], a_iterations = [200, 100, 50], a_fixed_images = 2,
        a_moving_images = 3, a_init_rigid = Some 8, a_loss_type = ''cc'',
        a_optimizer = ''Adam'', a_optimizer_lr = 3 / 1000, a_cc_kernel_size = 5\<rparr>, 15),
      (Affine_optimize 15, 17),
      (Affine_get_affine_matrix 15, 18),
      (Tensor_detach 18, 19),
      (Affine_save_as_ants_transforms 15 [''/out/sub1_0GenericAffine.mat''], 21),
      (GreedyRegistration
       \<lparr>g_scales = [4, 2, 1], g_iterations = [200, 100, 25], g_fixed_images = 2,
        g_moving_images = 3, g_cc_kernel_size = 5, g_deformation_type = ''compositive'',
        g_optimizer = ''Adam'', g_optimizer_lr = 1 / 2, g_smooth_grad_sigma = 1 / 2,
        g_init_affine = 19\<rparr>, 22),
      (Greedy_optimize 22, 24),
      (Greedy_evaluate 22 2 3, 25),
      (FakeBatchedImages 25 2, 26),
      (Write_image 26 ''/out/sub1_Warped.nii.gz'', 28),
      (Greedy_save_as_ants_transforms 22 [''/out/sub1_Def.nii.gz''] False, 30),
      (Greedy_save_as_ants_transforms 22 [''/out/sub1_InvDef.nii.gz''] True, 32)]
     (snd (run_fireants_registration lib_ok ascii_lower ''fixed.nii.gz''
          ''moving.nii.gz'' ''/out/sub1_'' ''default'' True [])) \<and>
   (Write_image 26 ''/out/sub1_Warped.nii.gz'', 28)
     \<in> set (snd (run_fireants_registration lib_ok ascii_lower ''fixed.nii.gz''
          ''moving.nii.gz'' ''/out/sub1_'' ''default'' True [])) \<and>
   fst ` set (writes (Write_image (26 :: nat) ''/out/sub1_Warped.nii.gz'')) \<inter>
     {''/out/sub1_'' @ ''Warped.nii.gz'', ''/out/sub1_'' @ ''Def.nii.gz'',
      ''/out/sub1_'' @ ''InvDef.nii.gz''} \<noteq> {}"
proof -
  let ?run = "run_fireants_registration lib_ok ascii_lower ''fixed.nii.gz''
          ''moving.nii.gz'' ''/out/sub1_'' ''default'' True []"
  have "?run = (fst ?run, snd ?run)" by simp
  from stages_in_order_and_seeded [OF this] show ?thesis
    by (simp add: run_lib_ok_moments stages_def List.map_filter_def subseq_Cons2_neq)
qed

text \<open>
  Claim C6 as stated fails in its last arrow: export does not wait for the deformable
  stage. In the completed run of the default profile with moments, the first 22 calls,
  all made before the greedy registration is constructed (call 22), have already
  written \<^verbatim>\<open>MomentsInit.mat\<close>, \<^verbatim>\<open>MomentsWarped.nii.gz\<close> and \<^verbatim>\<open>0GenericAffine.mat\<close>: the
  transform of the affine stage is exported by call 21, before the deformable stage
  begins.
\<close>

theorem affine_transform_exported_before_deformable:
  "written (take 22 (snd (run_fireants_registration lib_ok ascii_lower ''fixed.nii.gz''
          ''moving.nii.gz'' ''/out/sub1_'' ''default'' True []))) =
     [(''/out/sub1_MomentsInit.mat'', Moments_transform),
      (''/out/sub1_MomentsWarped.nii.gz'', Image_volume),
      (''/out/sub1_0GenericAffine.mat'', Affine_transform)] \<and>
   snd (run_fireants_registration lib_ok ascii_lower ''fixed.nii.gz''
          ''moving.nii.gz'' ''/out/sub1_'' ''default'' True []) ! 21 =
     (Affine_save_as_ants_transforms 15 [''/out/sub1_0GenericAffine.mat''], 21) \<and>
   snd (run_fireants_registration lib_ok ascii_lower ''fixed.nii.gz''
          ''moving.nii.gz'' ''/out/sub1_'' ''default'' True []) ! 22 =
     (GreedyRegistration
       \<lparr>g_scales = [4, 2, 1], g_iterations = [200, 100, 25], g_fixed_images = 2,
        g_moving_images = 3, g_cc_kernel_size = 5, g_deformation_type = ''compositive'',
        g_optimizer = ''Adam'', g_optimizer_lr = 1 / 2, g_smooth_grad_sigma = 1 / 2,
        g_init_affine = 19\<rparr>, 22) \<and>
   fst (run_fireants_registration lib_ok ascii_lower ''fixed.nii.gz''
          ''moving.nii.gz'' ''/out/sub1_'' ''default'' True []) = Inr ()"
  by (simp add: run_lib_ok_moments written_def)

end
